theory Spec2Isabelle
  imports Complex_Main
begin

section \<open>Python values used by the two scrapers\<close>

text \<open>
  Every listing, every API response body and the persisted scrape state is a value produced
  by \<^verbatim>\<open>json.load\<close> / \<^verbatim>\<open>response.json()\<close>.  A dictionary keeps
  its insertion order, so it is an association list (keys distinct, looked up with
  \<open>map_of\<close>).  JSON numbers are modelled as Python integers; non-integer numbers are
  outside this model.  Strings are byte lists (UTF-8).
\<close>

datatype json =
    JNull
  | JBool bool
  | JInt int
  | JStr string
  | JList "json list"
  | JObj "(string \<times> json) list"

text \<open>The built-in exceptions that the modelled code can raise.\<close>

datatype py_error =
    AttributeError
  | TypeError
  | KeyError
  | IndexError
  | ValueError
  | RequestException
  | JSONDecodeError
  | OverflowError
  | OSError
  | UnicodeDecodeError
  | RecursionError

text \<open>Python truthiness (\<^verbatim>\<open>if x\<close>, \<^verbatim>\<open>not x\<close>, \<^verbatim>\<open>x or y\<close>).\<close>

fun truthy :: "json \<Rightarrow> bool" where
  "truthy JNull = False"
| "truthy (JBool b) = b"
| "truthy (JInt i) = (i \<noteq> 0)"
| "truthy (JStr s) = (s \<noteq> [])"
| "truthy (JList xs) = (xs \<noteq> [])"
| "truthy (JObj kvs) = (kvs \<noteq> [])"

text \<open>\<^verbatim>\<open>d.get(k, default)\<close>: only a dictionary has the method; every other JSON value
  raises \<^verbatim>\<open>AttributeError\<close>.\<close>

fun dict_get :: "json \<Rightarrow> string \<Rightarrow> json \<Rightarrow> py_error + json" where
  "dict_get (JObj kvs) k dflt = Inr (case map_of kvs k of None \<Rightarrow> dflt | Some v \<Rightarrow> v)"
| "dict_get _ k dflt = Inl AttributeError"

text \<open>\<^verbatim>\<open>d[k] = v\<close> on a dictionary: an existing key keeps its position, a new key is
  appended.\<close>

fun dict_set :: "(string \<times> json) list \<Rightarrow> string \<Rightarrow> json \<Rightarrow> (string \<times> json) list" where
  "dict_set [] k v = [(k, v)]"
| "dict_set ((k', v') # kvs) k v =
     (if k' = k then (k, v) # kvs else (k', v') # dict_set kvs k v)"

text \<open>Decimal digits of an integer, as \<^verbatim>\<open>str(n)\<close> prints them.\<close>

definition digit_char :: "nat \<Rightarrow> char" where
  "digit_char d = char_of (48 + d)"

function str_nat :: "nat \<Rightarrow> string" where
  "str_nat n = (if n < 10 then [digit_char n] else str_nat (n div 10) @ [digit_char (n mod 10)])"
  by pat_completeness auto
termination
  by (relation "measure (\<lambda>n. n)") auto

definition str_int :: "int \<Rightarrow> string" where
  "str_int i = (if i < 0 then CHR ''-'' # str_nat (nat (- i)) else str_nat (nat i))"

text \<open>
  \<^verbatim>\<open>str(x)\<close>.  The text of a list or of a dictionary is Python's \<^verbatim>\<open>repr\<close> of it
  (quoting and escaping rules of the interpreter); it is the parameter \<open>rep\<close>.
\<close>

fun py_str :: "(json \<Rightarrow> string) \<Rightarrow> json \<Rightarrow> string" where
  "py_str rep JNull = ''None''"
| "py_str rep (JBool b) = (if b then ''True'' else ''False'')"
| "py_str rep (JInt i) = str_int i"
| "py_str rep (JStr s) = s"
| "py_str rep v = rep v"

section \<open>Site A: \<^verbatim>\<open>ImovelWebScraper\<close> (extract_data.py)\<close>

text \<open>What \<^verbatim>\<open>session.post\<close> gives for one page: the call raises, or it returns a
  response with a status code and a body that \<^verbatim>\<open>response.json()\<close> decodes or not.\<close>

datatype body = BadJson | Json json

datatype response = PostRaises | Resp int body

text \<open>
  The state file on disk: missing, not decodable as JSON (an empty or truncated file is such),
  holding a JSON value, or such that opening or reading it raises an exception that is not a
  \<^verbatim>\<open>JSONDecodeError\<close> (bytes that are not UTF-8 give \<^verbatim>\<open>UnicodeDecodeError\<close>, a file
  without read permission an \<^verbatim>\<open>OSError\<close>).
\<close>

datatype state_file = Absent | Malformed | Stored json | ReadRaises py_error

text \<open>
  The cookies file as \<^verbatim>\<open>_load_cookies\<close> meets it: missing, not decodable as JSON (a
  message is printed), loaded into the session, or raising an exception that is not a
  \<^verbatim>\<open>JSONDecodeError\<close>, either while it is read or when \<^verbatim>\<open>cookies.update\<close> rejects
  its value.
\<close>

datatype cookies_file = NoCookies | MalformedCookies | Cookies | CookiesRaise py_error

text \<open>
  What happens when \<^verbatim>\<open>_save_state\<close> writes a state to the state file:
  \<^verbatim>\<open>open(..., 'w')\<close> raises and the file is untouched; or the file is opened, which
  truncates it, and \<^verbatim>\<open>json.dump\<close> raises before the text is complete (a state nested
  deeper than the recursion limit of the interpreter allows, a full disk); or the whole
  text is written.
\<close>

datatype write_outcome = Written | OpenRaises py_error | DumpRaises py_error

text \<open>
  The fields of the scraper object that the pagination logic reads or writes, together with
  the two parts of the outside world it acts on: the contents of its state file and the
  pages it has requested so far (oldest first).
\<close>

record scraper =
  seen_posting_ids :: "string set"
  new_listings_this_session :: "(string \<times> json) list"
  state :: json
  new_listings_count :: nat
  state_file_contents :: state_file
  requested :: "int list"

text \<open>\<^verbatim>\<open>_load_state\<close>: only \<^verbatim>\<open>JSONDecodeError\<close> is caught.\<close>

definition load_state :: "state_file \<Rightarrow> py_error + json" where
  "load_state f = (case f of
      Stored j \<Rightarrow> Inr j
    | Malformed \<Rightarrow> Inr (JObj [(''last_page'', JInt 0)])
    | Absent \<Rightarrow> Inr (JObj [(''last_page'', JInt 0)])
    | ReadRaises e \<Rightarrow> Inl e)"

text \<open>\<^verbatim>\<open>_load_cookies\<close>: only \<^verbatim>\<open>JSONDecodeError\<close> is caught.\<close>

definition load_cookies :: "cookies_file \<Rightarrow> py_error + unit" where
  "load_cookies c = (case c of CookiesRaise e \<Rightarrow> Inl e | _ \<Rightarrow> Inr ())"

text \<open>The scraper object as \<^verbatim>\<open>__init__\<close> leaves it when it has loaded the state
  \<open>st\<close> from the state file \<open>f\<close>: an empty session accumulator, nothing requested.\<close>

definition fresh_scraper :: "string set \<Rightarrow> json \<Rightarrow> state_file \<Rightarrow> scraper" where
  "fresh_scraper seen st f =
     \<lparr> seen_posting_ids = seen, new_listings_this_session = [], state = st,
       new_listings_count = 0, state_file_contents = f, requested = [] \<rparr>"

text \<open>\<^verbatim>\<open>__init__\<close>: it loads the state, then the cookies; an exception of either
  leaves the constructor.\<close>

definition init_scraper ::
  "string set \<Rightarrow> state_file \<Rightarrow> cookies_file \<Rightarrow> py_error + scraper" where
  "init_scraper seen f c = (case load_state f of
      Inl e \<Rightarrow> Inl e
    | Inr st \<Rightarrow>
        (case load_cookies c of
           Inl e \<Rightarrow> Inl e
         | Inr u \<Rightarrow> Inr (fresh_scraper seen st f)))"

text \<open>
  \<^verbatim>\<open>_save_state\<close>: the exception it raises, if any, and the scraper afterwards.  Item
  assignment works on a dictionary only, and comes first: the attribute \<^verbatim>\<open>self.state\<close>
  is updated even when the write fails.  The file is then opened for writing and the state
  dumped to it; \<open>store\<close> tells how that goes.  A dump that raises leaves a truncated
  file, which is not decodable as JSON.
\<close>

definition save_state ::
  "(json \<Rightarrow> write_outcome) \<Rightarrow> scraper \<Rightarrow> int \<Rightarrow> py_error option \<times> scraper" where
  "save_state store sc page = (case state sc of
      JObj kvs \<Rightarrow>
        (let st = JObj (dict_set kvs ''last_page'' (JInt page))
         in case store st of
              Written \<Rightarrow> (None, sc\<lparr>state := st, state_file_contents := Stored st\<rparr>)
            | OpenRaises e \<Rightarrow> (Some e, sc\<lparr>state := st\<rparr>)
            | DumpRaises e \<Rightarrow> (Some e, sc\<lparr>state := st, state_file_contents := Malformed\<rparr>))
    | _ \<Rightarrow> (Some TypeError, sc))"

text \<open>
  The \<^verbatim>\<open>for listing_item in listings_on_page\<close> loop over a list.  The accumulator is
  mutated item by item, so an exception at one item leaves the earlier insertions in place:
  the result is the accumulator, the number of insertions and the exception, if any.
\<close>

fun record_listings ::
  "(json \<Rightarrow> string) \<Rightarrow> string set \<Rightarrow> json list \<Rightarrow> (string \<times> json) list \<Rightarrow> nat
     \<Rightarrow> (string \<times> json) list \<times> nat \<times> py_error option" where
  "record_listings rep seen [] sess n = (sess, n, None)"
| "record_listings rep seen (listing_item # rest) sess n =
     (case dict_get listing_item ''postingId'' JNull of
        Inl e \<Rightarrow> (sess, n, Some e)
      | Inr v \<Rightarrow>
          (let posting_id = py_str rep v in
           if posting_id \<noteq> [] \<and> posting_id \<notin> seen \<and> posting_id \<notin> fst ` set sess
           then record_listings rep seen rest (sess @ [(posting_id, listing_item)]) (n + 1)
           else record_listings rep seen rest sess n))"

text \<open>
  Iterating over the value of \<^verbatim>\<open>listPostings\<close> once it is known to be truthy.  A list
  yields its items.  A non-empty dictionary or string yields strings, and the first
  \<^verbatim>\<open>.get\<close> raises \<^verbatim>\<open>AttributeError\<close>; a number or \<^verbatim>\<open>True\<close> is not iterable.
\<close>

fun iterate_listings ::
  "(json \<Rightarrow> string) \<Rightarrow> string set \<Rightarrow> json \<Rightarrow> (string \<times> json) list
     \<Rightarrow> (string \<times> json) list \<times> nat \<times> py_error option" where
  "iterate_listings rep seen (JList xs) sess = record_listings rep seen xs sess 0"
| "iterate_listings rep seen (JObj kvs) sess = (sess, 0, Some AttributeError)"
| "iterate_listings rep seen (JStr s) sess = (sess, 0, Some AttributeError)"
| "iterate_listings rep seen _ sess = (sess, 0, Some TypeError)"

text \<open>
  \<^verbatim>\<open>scrape_page\<close>.  Every exception raised in its body is caught by its
  \<^verbatim>\<open>except Exception\<close> and turned into the result \<^verbatim>\<open>False\<close>; what was mutated before
  the exception stays mutated.
\<close>

definition scrape_page ::
  "(json \<Rightarrow> string) \<Rightarrow> (json \<Rightarrow> write_outcome) \<Rightarrow> (int \<Rightarrow> response) \<Rightarrow> scraper \<Rightarrow> int
     \<Rightarrow> bool \<times> scraper" where
  "scrape_page rep store api sc page =
     (let sc1 = sc\<lparr>requested := requested sc @ [page]\<rparr> in
      case api page of
        PostRaises \<Rightarrow> (False, sc1)
      | Resp status_code b \<Rightarrow>
          if status_code = 200 then
            (case b of
               BadJson \<Rightarrow> (False, sc1)
             | Json data \<Rightarrow>
                 (case dict_get data ''listPostings'' (JList []) of
                    Inl e \<Rightarrow> (False, sc1)
                  | Inr listings_on_page \<Rightarrow>
                      if \<not> truthy listings_on_page then (False, sc1)
                      else
                        (case iterate_listings rep (seen_posting_ids sc1) listings_on_page
                                (new_listings_this_session sc1) of
                           (sess, new_in_session_count, Some e) \<Rightarrow>
                             (False, sc1\<lparr>new_listings_this_session := sess\<rparr>)
                         | (sess, new_in_session_count, None) \<Rightarrow>
                             (let sc2 = sc1\<lparr>new_listings_this_session := sess,
                                     new_listings_count :=
                                       new_listings_count sc1 + new_in_session_count\<rparr>
                              in case save_state store sc2 page of
                                   (Some e, sc3) \<Rightarrow> (False, sc3)
                                 | (None, sc3) \<Rightarrow> (True, sc3)))))
          else (False, sc1))"

text \<open>
  The \<^verbatim>\<open>delay\<close> argument, a Python float: a finite number of seconds, an infinity,
  or \<^verbatim>\<open>nan\<close>.
\<close>

datatype seconds = Seconds rat | PosInf | NegInf | NaN

text \<open>
  \<^verbatim>\<open>time.sleep(delay)\<close>.  The interpreter converts the length to its clock type, a
  signed 64-bit count of nanoseconds, rounding away from zero: \<^verbatim>\<open>nan\<close> raises
  \<^verbatim>\<open>ValueError\<close>, a length that does not fit (\<^verbatim>\<open>1e300\<close>, \<^verbatim>\<open>inf\<close>) raises
  \<^verbatim>\<open>OverflowError\<close>.  A negative length then raises \<^verbatim>\<open>ValueError\<close>.
\<close>

definition time_sleep :: "seconds \<Rightarrow> py_error + unit" where
  "time_sleep delay = (case delay of
      NaN \<Rightarrow> Inl ValueError
    | PosInf \<Rightarrow> Inl OverflowError
    | NegInf \<Rightarrow> Inl OverflowError
    | Seconds s \<Rightarrow>
        if s * 10 ^ 9 < - (2 ^ 63) \<or> 2 ^ 63 - 1 < s * 10 ^ 9 then Inl OverflowError
        else if s < 0 then Inl ValueError
        else Inr ())"

text \<open>\<^verbatim>\<open>max_pages and pages_scraped_this_run >= max_pages\<close>: \<^verbatim>\<open>None\<close> and \<open>0\<close> are
  falsy, so neither caps the run.\<close>

definition cap_reached :: "int option \<Rightarrow> nat \<Rightarrow> bool" where
  "cap_reached max_pages pages_scraped_this_run = (case max_pages of
      None \<Rightarrow> False
    | Some m \<Rightarrow> m \<noteq> 0 \<and> int pages_scraped_this_run \<ge> m)"

text \<open>
  The \<^verbatim>\<open>while True\<close> loop of \<^verbatim>\<open>scrape\<close>.  It may run forever (an API that never
  returns an empty page, no cap), hence the option monad: \<open>None\<close> is a loop that does not
  return.  A returning loop gives the exception in flight when it was left, if any, and
  the scraper.
\<close>

partial_function (option) scrape_loop ::
  "(json \<Rightarrow> string) \<Rightarrow> (json \<Rightarrow> write_outcome) \<Rightarrow> (int \<Rightarrow> response) \<Rightarrow> seconds
     \<Rightarrow> int option \<Rightarrow> scraper \<Rightarrow> int \<Rightarrow> nat \<Rightarrow> (py_error option \<times> scraper) option" where
  "scrape_loop rep store api delay max_pages sc current_page pages_scraped_this_run =
     (if cap_reached max_pages pages_scraped_this_run then Some (None, sc)
      else if \<not> fst (scrape_page rep store api sc current_page)
        then Some (None, snd (scrape_page rep store api sc current_page))
      else case time_sleep delay of
             Inl e \<Rightarrow> Some (Some e, snd (scrape_page rep store api sc current_page))
           | Inr u \<Rightarrow>
               scrape_loop rep store api delay max_pages
                 (snd (scrape_page rep store api sc current_page))
                 (current_page + 1) (pages_scraped_this_run + 1))"

text \<open>\<^verbatim>\<open>start_page or self.state.get("last_page", 0) + 1\<close>, evaluated before the
  \<^verbatim>\<open>try\<close>.  \<^verbatim>\<open>True + 1\<close> is \<open>2\<close> in Python.\<close>

definition first_page :: "int option \<Rightarrow> json \<Rightarrow> py_error + int" where
  "first_page start_page st =
     (if start_page \<noteq> None \<and> start_page \<noteq> Some 0 then Inr (the start_page)
      else case dict_get st ''last_page'' (JInt 0) of
             Inl e \<Rightarrow> Inl e
           | Inr (JInt i) \<Rightarrow> Inr (i + 1)
           | Inr (JBool b) \<Rightarrow> Inr ((if b then 1 else 0) + 1)
           | Inr _ \<Rightarrow> Inl TypeError)"

text \<open>
  \<^verbatim>\<open>scrape\<close>: the \<^verbatim>\<open>return\<close> in the \<^verbatim>\<open>finally\<close> block discards whatever exception
  left the loop.  The result is the session accumulator (with the scraper, for its effects).
\<close>

definition scrape ::
  "(json \<Rightarrow> string) \<Rightarrow> (json \<Rightarrow> write_outcome) \<Rightarrow> (int \<Rightarrow> response) \<Rightarrow> scraper
     \<Rightarrow> int option \<Rightarrow> seconds \<Rightarrow> int option
     \<Rightarrow> (py_error + (string \<times> json) list \<times> scraper) option" where
  "scrape rep store api sc start_page delay max_pages =
     (case first_page start_page (state sc) of
        Inl e \<Rightarrow> Some (Inl e)
      | Inr current_page \<Rightarrow>
          (case scrape_loop rep store api delay max_pages sc current_page 0 of
             None \<Rightarrow> None
           | Some (in_flight, sc') \<Rightarrow> Some (Inr (new_listings_this_session sc', sc'))))"

section \<open>Site A: flattening and saving (extract_data.py)\<close>

text \<open>Subscription \<^verbatim>\<open>x[k]\<close> with a string key or a non-negative integer index.\<close>

datatype subscript = Key string | Idx nat

fun getitem :: "json \<Rightarrow> subscript \<Rightarrow> py_error + json" where
  "getitem (JObj kvs) (Key k) = (case map_of kvs k of None \<Rightarrow> Inl KeyError | Some v \<Rightarrow> Inr v)"
| "getitem (JObj kvs) (Idx i) = Inl KeyError"
| "getitem (JList xs) (Idx i) = (if i < length xs then Inr (xs ! i) else Inl IndexError)"
| "getitem (JList xs) (Key k) = Inl TypeError"
| "getitem (JStr s) (Idx i) = (if i < length s then Inr (JStr [s ! i]) else Inl IndexError)"
| "getitem (JStr s) (Key k) = Inl TypeError"
| "getitem _ _ = Inl TypeError"

text \<open>A chain \<^verbatim>\<open>x[a][b][c]\<close>, left to right, stopping at the first exception.\<close>

fun getpath :: "json \<Rightarrow> subscript list \<Rightarrow> py_error + json" where
  "getpath v [] = Inr v"
| "getpath v (k # ks) = (case getitem v k of Inl e \<Rightarrow> Inl e | Inr w \<Rightarrow> getpath w ks)"

text \<open>An \<^verbatim>\<open>except (E1, E2, ...): pass\<close> clause: a listed exception ends the block with
  the variables as they are, any other exception propagates.\<close>

definition except_pass :: "py_error list \<Rightarrow> py_error \<Rightarrow> 'a \<Rightarrow> py_error + 'a" where
  "except_pass handled e vars = (if e \<in> set handled then Inr vars else Inl e)"

text \<open>\<^verbatim>\<open>a or b\<close>.\<close>

definition py_or :: "json \<Rightarrow> json \<Rightarrow> json" where
  "py_or a b = (if truthy a then a else b)"

text \<open>\<^verbatim>\<open>kw in s\<close> on strings.\<close>

fun starts_with :: "string \<Rightarrow> string \<Rightarrow> bool" where
  "starts_with s [] = True"
| "starts_with [] (k # ks) = False"
| "starts_with (c # cs) (k # ks) = (c = k \<and> starts_with cs ks)"

fun str_contains :: "string \<Rightarrow> string \<Rightarrow> bool" where
  "str_contains kw [] = (kw = [])"
| "str_contains kw (c # cs) = (starts_with (c # cs) kw \<or> str_contains kw cs)"

text \<open>
  \<^verbatim>\<open>next((f.get('value') for f in features if kw in f.get('label','').lower()), None)\<close>.
  The generator is lazy: features after the first match are never looked at.  A feature
  that is not a dictionary, or whose label is not a string, raises \<^verbatim>\<open>AttributeError\<close>.
  \<^verbatim>\<open>str.lower\<close> (Unicode case mapping) is the parameter \<open>lower\<close>.
\<close>

fun next_feature :: "(string \<Rightarrow> string) \<Rightarrow> string \<Rightarrow> json list \<Rightarrow> py_error + json" where
  "next_feature lower kw [] = Inr JNull"
| "next_feature lower kw (f # fs) =
     (case dict_get f ''label'' (JStr []) of
        Inl e \<Rightarrow> Inl e
      | Inr (JStr label) \<Rightarrow>
          if str_contains kw (lower label) then dict_get f ''value'' JNull
          else next_feature lower kw fs
      | Inr _ \<Rightarrow> Inl AttributeError)"

text \<open>The keywords, as UTF-8 bytes.\<close>

definition kw_util :: string where "kw_util = [CHR 0xC3, CHR 0xBA] @ ''til''"
definition kw_suite :: string where "kw_suite = ''su'' @ [CHR 0xC3, CHR 0xAD] @ ''te''"

text \<open>The price block: \<open>(price, currency)\<close>.\<close>

definition price_block :: "json \<Rightarrow> py_error + json \<times> json" where
  "price_block listing =
     (let h = [KeyError, TypeError, IndexError] in
      case getpath listing [Key ''priceOperationTypes'', Idx 0, Key ''prices'', Idx 0] of
        Inl e \<Rightarrow> except_pass h e (JNull, JNull)
      | Inr price_info \<Rightarrow>
          (case dict_get price_info ''amount'' JNull of
             Inl e \<Rightarrow> except_pass h e (JNull, JNull)
           | Inr amount \<Rightarrow>
               (case dict_get price_info ''currency'' JNull of
                  Inl e \<Rightarrow> except_pass h e (amount, JNull)
                | Inr cur \<Rightarrow> Inr (amount, cur))))"

text \<open>The expenses block.\<close>

definition expenses_block :: "json \<Rightarrow> py_error + json" where
  "expenses_block listing =
     (case getpath listing [Key ''expenses'', Key ''amount''] of
        Inl e \<Rightarrow> except_pass [KeyError, TypeError] e JNull
      | Inr amount \<Rightarrow> Inr amount)"

text \<open>
  The features block: \<open>(bedrooms, bathrooms, area, suites, parking)\<close>.  The seven
  assignments share one \<^verbatim>\<open>try\<close>, so an exception in one of them leaves every later
  variable at \<^verbatim>\<open>None\<close>; \<open>area\<close> is assigned only after both area look-ups.
\<close>

definition features_block ::
  "(string \<Rightarrow> string) \<Rightarrow> json \<Rightarrow> py_error + json \<times> json \<times> json \<times> json \<times> json" where
  "features_block lower listing =
     (let h = [AttributeError, TypeError] in
      case dict_get listing ''mainFeatures'' (JObj []) of
        Inl e \<Rightarrow> except_pass h e (JNull, JNull, JNull, JNull, JNull)
      | Inr (JObj features_dict) \<Rightarrow>
          (let fs = map snd features_dict in
           case next_feature lower kw_util fs of
             Inl e \<Rightarrow> except_pass h e (JNull, JNull, JNull, JNull, JNull)
           | Inr area_util \<Rightarrow>
          (case next_feature lower ''total'' fs of
             Inl e \<Rightarrow> except_pass h e (JNull, JNull, JNull, JNull, JNull)
           | Inr area_total \<Rightarrow>
          (let area = py_or area_util area_total in
           case next_feature lower ''quarto'' fs of
             Inl e \<Rightarrow> except_pass h e (JNull, JNull, area, JNull, JNull)
           | Inr v_bedrooms \<Rightarrow>
          (case next_feature lower ''banheiro'' fs of
             Inl e \<Rightarrow> except_pass h e (v_bedrooms, JNull, area, JNull, JNull)
           | Inr v_bathrooms \<Rightarrow>
          (case next_feature lower kw_suite fs of
             Inl e \<Rightarrow> except_pass h e (v_bedrooms, v_bathrooms, area, JNull, JNull)
           | Inr v_suites \<Rightarrow>
          (case next_feature lower ''vaga'' fs of
             Inl e \<Rightarrow> except_pass h e (v_bedrooms, v_bathrooms, area, v_suites, JNull)
           | Inr v_parking \<Rightarrow>
               Inr (v_bedrooms, v_bathrooms, area, v_suites, v_parking)))))))
      | Inr _ \<Rightarrow> Inr (JNull, JNull, JNull, JNull, JNull))"

text \<open>
  The location block: \<open>(location, latitude, longitude)\<close>.  The name is read first, in the
  same \<^verbatim>\<open>try\<close> as the coordinates.
\<close>

definition location_block :: "json \<Rightarrow> py_error + json \<times> json \<times> json" where
  "location_block listing =
     (let h = [KeyError, TypeError, IndexError] in
      case getpath listing [Key ''postingLocation'', Key ''location'', Key ''name''] of
        Inl e \<Rightarrow> except_pass h e (JNull, JNull, JNull)
      | Inr loc \<Rightarrow>
     (case getpath listing
             [Key ''postingLocation'', Key ''postingGeolocation'', Key ''geolocation''] of
        Inl e \<Rightarrow> except_pass h e (loc, JNull, JNull)
      | Inr geo \<Rightarrow>
     (case dict_get geo ''latitude'' JNull of
        Inl e \<Rightarrow> except_pass h e (loc, JNull, JNull)
      | Inr lat \<Rightarrow>
     (case dict_get geo ''longitude'' JNull of
        Inl e \<Rightarrow> except_pass h e (loc, JNull, JNull)
      | Inr lon \<Rightarrow> Inr (loc, lat, lon)))))"

text \<open>The URL block.  \<^verbatim>\<open>base_url + relative_url\<close> is a \<^verbatim>\<open>TypeError\<close> unless
  \<open>relative_url\<close> is a string.\<close>

definition base_url :: string where
  "base_url = ''https://www.imovelweb.com.br''"

definition url_block :: "json \<Rightarrow> py_error + json" where
  "url_block listing =
     (case dict_get listing ''url'' (JStr []) of
        Inl e \<Rightarrow> except_pass [TypeError] e JNull
      | Inr relative_url \<Rightarrow>
          if truthy relative_url then
            (case relative_url of
               JStr r \<Rightarrow> Inr (JStr (base_url @ r))
             | _ \<Rightarrow> except_pass [TypeError] TypeError JNull)
          else Inr JNull)"

record flat_item =
  postingId :: json
  price :: json
  expenses :: json
  currency :: json
  bedrooms :: json
  suites :: json
  bathrooms :: json
  parking :: json
  area_m2 :: json
  location :: json
  latitude :: json
  longitude :: json
  title :: json
  description :: json
  publisher :: json
  full_url :: json
  retrievedDate :: string

text \<open>Sequencing of two steps either of which may raise.\<close>

definition and_then :: "py_error + 'a \<Rightarrow> ('a \<Rightarrow> py_error + 'b) \<Rightarrow> py_error + 'b" where
  "and_then r f = (case r of Inl e \<Rightarrow> Inl e | Inr x \<Rightarrow> f x)"

text \<open>
  One iteration of the \<^verbatim>\<open>for listing in new_listings\<close> loop: the five blocks in source
  order, then the dictionary display, whose \<^verbatim>\<open>.get\<close> calls are outside every
  \<^verbatim>\<open>try\<close>.
\<close>

definition flatten :: "(string \<Rightarrow> string) \<Rightarrow> string \<Rightarrow> json \<Rightarrow> py_error + flat_item" where
  "flatten lower timestamp listing =
     and_then (price_block listing) (\<lambda>(v_price, v_currency).
     and_then (expenses_block listing) (\<lambda>v_expenses.
     and_then (features_block lower listing)
       (\<lambda>(v_bedrooms, v_bathrooms, v_area, v_suites, v_parking).
     and_then (location_block listing) (\<lambda>(v_location, v_latitude, v_longitude).
     and_then (url_block listing) (\<lambda>v_full_url.
     and_then (dict_get listing ''postingId'' JNull) (\<lambda>v_posting_id.
     and_then (dict_get listing ''title'' JNull) (\<lambda>v_title.
     and_then (dict_get listing ''descriptionNormalized'' JNull) (\<lambda>v_description.
     and_then (dict_get listing ''publisher'' (JObj [])) (\<lambda>pub.
     and_then (dict_get pub ''name'' JNull) (\<lambda>v_publisher.
        Inr \<lparr> postingId = v_posting_id, price = v_price, expenses = v_expenses,
              currency = v_currency, bedrooms = v_bedrooms, suites = v_suites,
              bathrooms = v_bathrooms, parking = v_parking, area_m2 = v_area,
              location = v_location, latitude = v_latitude, longitude = v_longitude,
              title = v_title, description = v_description, publisher = v_publisher,
              full_url = v_full_url, retrievedDate = timestamp \<rparr>))))))))))"

text \<open>The loop itself: the first exception ends it.\<close>

fun flatten_all ::
  "(string \<Rightarrow> string) \<Rightarrow> string \<Rightarrow> json list \<Rightarrow> py_error + flat_item list" where
  "flatten_all lower timestamp [] = Inr []"
| "flatten_all lower timestamp (listing # rest) =
     (case flatten lower timestamp listing of
        Inl e \<Rightarrow> Inl e
      | Inr row \<Rightarrow>
          (case flatten_all lower timestamp rest of
             Inl e \<Rightarrow> Inl e
           | Inr rows \<Rightarrow> Inr (row # rows)))"

text \<open>
  \<^verbatim>\<open>save_new_listings_to_city_csv\<close>: nothing is written for an empty list; otherwise
  the rows handed to the data frame become the new output file, unless flattening raised
  before.  The result is the new file, if one was written.
\<close>

definition save_new_listings_to_city_csv ::
  "(string \<Rightarrow> string) \<Rightarrow> string \<Rightarrow> json list \<Rightarrow> py_error + flat_item list option" where
  "save_new_listings_to_city_csv lower timestamp new_listings =
     (if new_listings = [] then Inr None
      else case flatten_all lower timestamp new_listings of
             Inl e \<Rightarrow> Inl e
           | Inr flattened_data \<Rightarrow> Inr (Some flattened_data))"

text \<open>
  A prior output file as \<^verbatim>\<open>pd.read_csv(file, usecols=['postingId'], dtype=str)\<close> sees
  it: the read raises, or it gives the \<open>postingId\<close> column, a missing cell being \<open>None\<close>.
\<close>

datatype csv_file = Unreadable | PostingIdColumn "string option list"

definition ends_with :: "string \<Rightarrow> string \<Rightarrow> bool" where
  "ends_with name suffix = starts_with (rev name) (rev suffix)"

text \<open>\<^verbatim>\<open>load_seen_ids_from_city_csvs\<close>.  The directory is \<open>None\<close> when it does not
  exist, otherwise its files by name; the glob pattern is \<^verbatim>\<open>*_{city_slug}_results.csv\<close>.\<close>

fun file_ids :: "csv_file \<Rightarrow> string set" where
  "file_ids Unreadable = {}"
| "file_ids (PostingIdColumn col) = {i. Some i \<in> set col}"

definition load_seen_ids_from_city_csvs ::
  "(string \<times> csv_file) list option \<Rightarrow> string \<Rightarrow> string set" where
  "load_seen_ids_from_city_csvs directory city_slug = (case directory of
      None \<Rightarrow> {}
    | Some files \<Rightarrow>
        \<Union> (set (map (\<lambda>(name, f). file_ids f)
             (filter (\<lambda>(name, f). ends_with name (''_'' @ city_slug @ ''_results.csv''))
                files))))"

text \<open>
  \<^verbatim>\<open>scrape_city_task\<close>, the body of one worker thread: its exception, if any, ends the
  thread.  \<open>None\<close> is a pagination loop that never returns.
\<close>

definition scrape_city_task ::
  "(json \<Rightarrow> string) \<Rightarrow> (json \<Rightarrow> write_outcome) \<Rightarrow> (string \<Rightarrow> string) \<Rightarrow> string
     \<Rightarrow> (int \<Rightarrow> response) \<Rightarrow> (string \<times> csv_file) list option \<Rightarrow> state_file \<Rightarrow> cookies_file
     \<Rightarrow> string \<Rightarrow> int option \<Rightarrow> seconds \<Rightarrow> int option
     \<Rightarrow> (py_error + flat_item list option \<times> scraper) option" where
  "scrape_city_task rep store lower timestamp api output_dir sf cf city_slug start delay
       max_pages =
     (let seen_ids = load_seen_ids_from_city_csvs output_dir city_slug
      in case init_scraper seen_ids sf cf of
           Inl e \<Rightarrow> Some (Inl e)
         | Inr scraper \<Rightarrow>
             (case scrape rep store api scraper start delay max_pages of
                None \<Rightarrow> None
              | Some (Inl e) \<Rightarrow> Some (Inl e)
              | Some (Inr (new_city_listings, sc')) \<Rightarrow>
                  if new_city_listings \<noteq> [] then
                    (case save_new_listings_to_city_csv lower timestamp
                            (map snd new_city_listings) of
                       Inl e \<Rightarrow> Some (Inl e)
                     | Inr written \<Rightarrow> Some (Inr (written, sc')))
                  else Some (Inr (None, sc'))))"

text \<open>
  \<^verbatim>\<open>main\<close> of extract_data.py.  \<open>args\<close> is what \<^verbatim>\<open>parser.parse_args()\<close> returns,
  or \<open>None\<close> when it rejects the command line and exits with status 2.  Each known city
  gets a worker thread; \<open>worker\<close> tells how the thread for a city ends: \<open>None\<close> never,
  \<open>Some (Inl e)\<close> by an exception (which ends that thread only), \<open>Some (Inr ())\<close> by
  returning.  \<^verbatim>\<open>thread.join()\<close> waits for the end and returns nothing.  The result is
  the exit status of the process, \<open>None\<close> when it never exits.
\<close>

definition CITY_CODES :: "(string \<times> string) list" where
  "CITY_CODES = [(''itanhaem-sp'', ''109237'')]"

record args =
  city :: "string list"
  start :: "int option"
  delay_arg :: seconds
  max_pages_arg :: "int option"

fun start_threads ::
  "(string \<Rightarrow> string \<Rightarrow> (py_error + unit) option) \<Rightarrow> string list
     \<Rightarrow> (py_error + unit) option list" where
  "start_threads worker [] = []"
| "start_threads worker (city_slug_item # rest) =
     (case map_of CITY_CODES city_slug_item of
        None \<Rightarrow> start_threads worker rest
      | Some city_code \<Rightarrow>
          if city_code = [] then start_threads worker rest
          else worker city_slug_item city_code # start_threads worker rest)"

definition imovelweb_main ::
  "args option \<Rightarrow> (string \<Rightarrow> string \<Rightarrow> (py_error + unit) option) \<Rightarrow> int option" where
  "imovelweb_main parsed worker = (case parsed of
      None \<Rightarrow> Some 2
    | Some a \<Rightarrow>
        (let threads = start_threads worker (city a)
         in if list_all (\<lambda>t. t \<noteq> None) threads then Some 0 else None))"

section \<open>Site B: quintoandar_scraper.py\<close>

text \<open>
  The output file of a city: missing; such that reading it raises (bytes that are not
  UTF-8, a line that the CSV reader rejects) while appending to it works; or a CSV text,
  given by its rows of cells as \<^verbatim>\<open>csv.reader\<close> parses them (a blank line is the row
  \<open>[]\<close>; the text is empty or ends with a line break, as every text written by
  \<^verbatim>\<open>csv.writer\<close> does).  \<open>WriteProtected f\<close> is \<open>f\<close> at a path where
  \<^verbatim>\<open>open(filepath, 'a')\<close> raises \<^verbatim>\<open>OSError\<close>.
\<close>

datatype out_file =
    NoFile
  | UnreadableFile
  | CsvFile "string list list"
  | WriteProtected out_file

text \<open>
  The dictionary that \<^verbatim>\<open>csv.DictReader\<close> makes of a row: the field names zipped with
  the cells, a later duplicate of a name winning, the names beyond the end of a short row
  mapped to \<^verbatim>\<open>None\<close>.  (The cells beyond the field names go under the key
  \<^verbatim>\<open>None\<close>, which no lookup here uses.)
\<close>

definition dict_reader_row :: "string list \<Rightarrow> string list \<Rightarrow> string \<rightharpoonup> string option" where
  "dict_reader_row fieldnames row =
     map_of (rev (zip fieldnames
       (map Some row @ replicate (length fieldnames - length row) None)))"

text \<open>The loop of \<^verbatim>\<open>load_existing_ids\<close> over the rows after the first one, which gives
  the field names; the reader skips the rows that are \<open>[]\<close>.\<close>

fun reader_ids :: "string list \<Rightarrow> string list list \<Rightarrow> string option list" where
  "reader_ids fieldnames [] = []"
| "reader_ids fieldnames (row # rest) =
     (if row = [] then reader_ids fieldnames rest
      else case dict_reader_row fieldnames row ''id'' of
             None \<Rightarrow> reader_ids fieldnames rest
           | Some v \<Rightarrow> v # reader_ids fieldnames rest)"

text \<open>\<^verbatim>\<open>load_existing_ids\<close>: every exception while reading is caught and gives the empty
  set.  A member of the set is a cell or \<^verbatim>\<open>None\<close>.\<close>

fun load_existing_ids :: "out_file \<Rightarrow> string option set" where
  "load_existing_ids NoFile = {}"
| "load_existing_ids UnreadableFile = {}"
| "load_existing_ids (CsvFile []) = {}"
| "load_existing_ids (CsvFile (fieldnames # rows)) = set (reader_ids fieldnames rows)"
| "load_existing_ids (WriteProtected f) = load_existing_ids f"

text \<open>\<^verbatim>\<open>[hit["_source"] for hit in hits]\<close> over a list.\<close>

fun sources :: "json list \<Rightarrow> py_error + json list" where
  "sources [] = Inr []"
| "sources (hit # rest) =
     (case getitem hit (Key ''_source'') of
        Inl e \<Rightarrow> Inl e
      | Inr src \<Rightarrow> (case sources rest of Inl e \<Rightarrow> Inl e | Inr srcs \<Rightarrow> Inr (src # srcs)))"

text \<open>
  \<^verbatim>\<open>fetch_quintoandar_data\<close> on what \<^verbatim>\<open>requests.post\<close> gives (it raises a
  \<^verbatim>\<open>RequestException\<close> or returns a response; \<^verbatim>\<open>raise_for_status\<close> raises for a
  status from 400 to 599).  Only \<^verbatim>\<open>RequestException\<close> and
  \<^verbatim>\<open>JSONDecodeError\<close> are caught, giving \<^verbatim>\<open>(None, None)\<close>, here \<open>Inr None\<close>.  The
  second component of the result is always the constant field list and is left out.  A
  truthy \<open>hits\<close> that is not a list yields strings, or is not iterable: a
  \<^verbatim>\<open>TypeError\<close> either way.
\<close>

definition fetch_quintoandar_data :: "response \<Rightarrow> py_error + json list option" where
  "fetch_quintoandar_data r = (case r of
      PostRaises \<Rightarrow> Inr None
    | Resp status_code b \<Rightarrow>
        if 400 \<le> status_code \<and> status_code < 600 then Inr None
        else (case b of
                BadJson \<Rightarrow> Inr None
              | Json data \<Rightarrow>
                  (case dict_get data ''hits'' (JObj []) of
                     Inl e \<Rightarrow> Inl e
                   | Inr h \<Rightarrow>
                       (case dict_get h ''hits'' JNull of
                          Inl e \<Rightarrow> Inl e
                        | Inr hs \<Rightarrow>
                            if truthy hs then
                              (case hs of
                                 JList xs \<Rightarrow>
                                   (case sources xs of
                                      Inl e \<Rightarrow> Inl e
                                    | Inr listings \<Rightarrow> Inr (Some listings))
                               | _ \<Rightarrow> Inl TypeError)
                            else Inr (Some [])))))"

text \<open>\<^verbatim>\<open>{str(item['id']): item for item in listings}\<close>: a repeated key keeps its first
  position and takes the later item.\<close>

fun unique_by_id ::
  "(json \<Rightarrow> string) \<Rightarrow> json list \<Rightarrow> (string \<times> json) list \<Rightarrow> py_error + (string \<times> json) list" where
  "unique_by_id rep [] d = Inr d"
| "unique_by_id rep (item # rest) d =
     (case getitem item (Key ''id'') of
        Inl e \<Rightarrow> Inl e
      | Inr v \<Rightarrow> unique_by_id rep rest (dict_set d (py_str rep v) item))"

text \<open>\<^verbatim>\<open>[listing for listing in unique_new_listings
  if str(listing['id']) not in existing_ids]\<close>.\<close>

fun final_listings ::
  "(json \<Rightarrow> string) \<Rightarrow> string option set \<Rightarrow> json list \<Rightarrow> py_error + json list" where
  "final_listings rep existing_ids [] = Inr []"
| "final_listings rep existing_ids (listing # rest) =
     (case getitem listing (Key ''id'') of
        Inl e \<Rightarrow> Inl e
      | Inr v \<Rightarrow>
          (case final_listings rep existing_ids rest of
             Inl e \<Rightarrow> Inl e
           | Inr keep \<Rightarrow>
               Inr (if Some (py_str rep v) \<notin> existing_ids then listing # keep else keep)))"

text \<open>The list \<^verbatim>\<open>fields_to_request\<close>, which is also the header of the output file.\<close>

definition fields_to_request :: "string list" where
  "fields_to_request =
     [''id'', ''coverImage'', ''rent'', ''totalCost'', ''salePrice'',
      ''iptuPlusCondominium'', ''area'', ''imageList'', ''imageCaptionList'',
      ''address'', ''regionName'', ''city'', ''visitStatus'',
      ''activeSpecialConditions'', ''type'', ''forRent'', ''forSale'',
      ''isPrimaryMarket'', ''bedrooms'', ''parkingSpaces'', ''suites'',
      ''listingTags'', ''yield'', ''yieldStrategy'', ''neighbourhood'',
      ''categories'', ''bathrooms'', ''isFurnished'', ''installations'',
      ''amenities'', ''shortRentDescription'', ''shortSaleDescription'']"

text \<open>The cell that \<^verbatim>\<open>csv.writer\<close> writes for a value: empty for \<^verbatim>\<open>None\<close>,
  otherwise its \<^verbatim>\<open>str\<close>.\<close>

definition csv_cell :: "(json \<Rightarrow> string) \<Rightarrow> json \<Rightarrow> string" where
  "csv_cell rep v = (case v of JNull \<Rightarrow> [] | _ \<Rightarrow> py_str rep v)"

text \<open>The cells that \<^verbatim>\<open>csv.DictWriter\<close> writes for one dictionary, by
  \<^verbatim>\<open>rowdict.get(key, '')\<close> over the field names.\<close>

fun csv_cells :: "(json \<Rightarrow> string) \<Rightarrow> json \<Rightarrow> string list \<Rightarrow> py_error + string list" where
  "csv_cells rep rowdict [] = Inr []"
| "csv_cells rep rowdict (key # keys) =
     (case dict_get rowdict key (JStr []) of
        Inl e \<Rightarrow> Inl e
      | Inr v \<Rightarrow>
          (case csv_cells rep rowdict keys of
             Inl e \<Rightarrow> Inl e
           | Inr cells \<Rightarrow> Inr (csv_cell rep v # cells)))"

text \<open>\<^verbatim>\<open>writer.writerows(data)\<close>: the rows written, or the exception of the first
  item that is not a dictionary.\<close>

fun writerows :: "(json \<Rightarrow> string) \<Rightarrow> json list \<Rightarrow> py_error + string list list" where
  "writerows rep [] = Inr []"
| "writerows rep (rowdict # rest) =
     (case csv_cells rep rowdict fields_to_request of
        Inl e \<Rightarrow> Inl e
      | Inr cells \<Rightarrow>
          (case writerows rep rest of
             Inl e \<Rightarrow> Inl e
           | Inr rows \<Rightarrow> Inr (cells # rows)))"

text \<open>
  \<^verbatim>\<open>save_to_csv\<close>, with the constant field list as its \<^verbatim>\<open>headers\<close>: nothing
  happens for an empty list.  Otherwise the file is opened for appending, the header row
  is written when there was no file, and the rows are appended; a file that exists gets
  no header, whatever it holds, and appending to a file that cannot be read leaves it so.
  The result is the file afterwards, or the exception raised.
\<close>

fun save_to_csv :: "(json \<Rightarrow> string) \<Rightarrow> json list \<Rightarrow> out_file \<Rightarrow> py_error + out_file" where
  "save_to_csv rep data (WriteProtected f) =
     (if data = [] then Inr (WriteProtected f) else Inl OSError)"
| "save_to_csv rep data NoFile =
     (if data = [] then Inr NoFile
      else case writerows rep data of
             Inl e \<Rightarrow> Inl e
           | Inr rows \<Rightarrow> Inr (CsvFile (fields_to_request # rows)))"
| "save_to_csv rep data (CsvFile old_rows) =
     (if data = [] then Inr (CsvFile old_rows)
      else case writerows rep data of
             Inl e \<Rightarrow> Inl e
           | Inr rows \<Rightarrow> Inr (CsvFile (old_rows @ rows)))"
| "save_to_csv rep data UnreadableFile =
     (if data = [] then Inr UnreadableFile
      else case writerows rep data of
             Inl e \<Rightarrow> Inl e
           | Inr rows \<Rightarrow> Inr UnreadableFile)"

text \<open>
  The body of the \<^verbatim>\<open>for city_slug in city_slugs\<close> loop: the listings selected for
  appending and the file afterwards, or the exception that leaves the loop.
\<close>

definition process_city ::
  "(json \<Rightarrow> string) \<Rightarrow> response \<Rightarrow> out_file \<Rightarrow> py_error + json list \<times> out_file" where
  "process_city rep r f =
     (let existing_ids = load_existing_ids f in
      case fetch_quintoandar_data r of
        Inl e \<Rightarrow> Inl e
      | Inr None \<Rightarrow> Inr ([], f)
      | Inr (Some listings) \<Rightarrow>
          if listings = [] then Inr ([], f)
          else
            (case unique_by_id rep listings [] of
               Inl e \<Rightarrow> Inl e
             | Inr unique_new_listings \<Rightarrow>
                 (case final_listings rep existing_ids (map snd unique_new_listings) of
                    Inl e \<Rightarrow> Inl e
                  | Inr final_listings_to_add \<Rightarrow>
                      (case save_to_csv rep final_listings_to_add f of
                         Inl e \<Rightarrow> Inl e
                       | Inr f' \<Rightarrow> Inr (final_listings_to_add, f')))))"

definition output_filepath :: "string \<Rightarrow> string" where
  "output_filepath city_slug =
     ''results/quintoandar/quintoandar_''
       @ map (\<lambda>c. if c = CHR ''-'' then CHR ''_'' else c) city_slug @ ''.csv''"

text \<open>The loop over the cities; \<open>files\<close> maps a path to the file there, \<open>api\<close> gives
  the response for a city and a page size.\<close>

fun process_cities ::
  "(json \<Rightarrow> string) \<Rightarrow> (string \<Rightarrow> int \<Rightarrow> response) \<Rightarrow> int \<Rightarrow> string list
     \<Rightarrow> (string \<Rightarrow> out_file) \<Rightarrow> py_error + (string \<Rightarrow> out_file)" where
  "process_cities rep api total_to_fetch [] files = Inr files"
| "process_cities rep api total_to_fetch (city_slug # rest) files =
     (case process_city rep (api city_slug total_to_fetch)
             (files (output_filepath city_slug)) of
        Inl e \<Rightarrow> Inl e
      | Inr (added, f') \<Rightarrow>
          process_cities rep api total_to_fetch rest
            (files(output_filepath city_slug := f')))"

text \<open>
  The \<^verbatim>\<open>__main__\<close> block.  \<open>argv\<close> is \<^verbatim>\<open>sys.argv\<close>; \<open>py_int\<close> is \<^verbatim>\<open>int\<close> on a
  string, \<open>None\<close> for its \<^verbatim>\<open>ValueError\<close>.  The result is the exit status: an
  exception that nothing catches ends the interpreter with status 1.
\<close>

definition BASE_PAGE_SIZE :: int where
  "BASE_PAGE_SIZE = 1"

definition quintoandar_main ::
  "(json \<Rightarrow> string) \<Rightarrow> (string \<Rightarrow> int option) \<Rightarrow> (string \<Rightarrow> int \<Rightarrow> response)
     \<Rightarrow> string list \<Rightarrow> (string \<Rightarrow> out_file) \<Rightarrow> int" where
  "quintoandar_main rep py_int api argv files =
     (if length argv < 3 then 1
      else case py_int (argv ! 1) of
             None \<Rightarrow> 1
           | Some page_multiplier \<Rightarrow>
               if page_multiplier < 1 then 1
               else (case process_cities rep api (page_multiplier * BASE_PAGE_SIZE)
                            (drop 2 argv) files of
                       Inl e \<Rightarrow> 1
                     | Inr files' \<Rightarrow> 0))"

section \<open>Notions used in the statements\<close>

text \<open>The listing array that \<^verbatim>\<open>scrape_page\<close> extracts from a response: there is one
  only for status 200 with a decodable body that is a dictionary.\<close>

definition listing_array :: "response \<Rightarrow> json option" where
  "listing_array r = (case r of
      Resp status_code (Json data) \<Rightarrow>
        (if status_code = 200 then
           (case dict_get data ''listPostings'' (JList []) of
              Inl e \<Rightarrow> None
            | Inr l \<Rightarrow> Some l)
         else None)
    | _ \<Rightarrow> None)"

text \<open>A page with a non-empty (truthy) listing array.\<close>

definition nonempty_page :: "response \<Rightarrow> bool" where
  "nonempty_page r = (case listing_array r of None \<Rightarrow> False | Some l \<Rightarrow> truthy l)"

text \<open>Concrete inputs for the examples: a \<^verbatim>\<open>repr\<close> stand-in, and an API whose every
  page has an empty listing array.\<close>

definition ex_rep :: "json \<Rightarrow> string" where
  "ex_rep v = ''<repr>''"

definition empty_api :: "int \<Rightarrow> response" where
  "empty_api page = Resp 200 (Json (JObj [(''listPostings'', JList [])]))"

text \<open>A state file that every write completes on.\<close>

definition all_written :: "json \<Rightarrow> write_outcome" where
  "all_written st = Written"

text \<open>A state file on a full disk: it can be opened, and every dump to it raises.\<close>

definition disk_full :: "json \<Rightarrow> write_outcome" where
  "disk_full st = DumpRaises OSError"

text \<open>A listing array with an item that is not a record between two records.\<close>

definition mixed_records :: "json list" where
  "mixed_records =
     [JObj [(''postingId'', JStr ''a1'')], JInt 5, JObj [(''postingId'', JStr ''a2'')]]"

text \<open>The scraper that the constructor gives when there is no state file.\<close>

definition new_scraper :: "string set \<Rightarrow> scraper" where
  "new_scraper S = fresh_scraper S (JObj [(''last_page'', JInt 0)]) Absent"

text \<open>
  The identifier under which \<^verbatim>\<open>scrape_page\<close> files a record: \<^verbatim>\<open>str(listing_item.get("postingId"))\<close>, when the record is a dictionary.
\<close>

definition posting_key :: "(json \<Rightarrow> string) \<Rightarrow> json \<Rightarrow> string option" where
  "posting_key rep item = (case dict_get item ''postingId'' JNull of
      Inl e \<Rightarrow> None
    | Inr v \<Rightarrow> Some (py_str rep v))"

text \<open>
  Whether a JSON value is a dictionary.
\<close>

fun is_dict :: "json \<Rightarrow> bool" where
  "is_dict (JObj kvs) = True"
| "is_dict _ = False"

text \<open>
  The records of a response that the \<^verbatim>\<open>for\<close> loop of \<^verbatim>\<open>scrape_page\<close> processes: the items of the listing array up to the first one that is not a dictionary (where \<^verbatim>\<open>.get\<close> raises).
\<close>

definition processed_records :: "response \<Rightarrow> json list" where
  "processed_records r = (case listing_array r of
      Some (JList xs) \<Rightarrow> takeWhile is_dict xs
    | _ \<Rightarrow> [])"

text \<open>
  The identifiers of a list of records, in order.
\<close>

fun posting_ids :: "(json \<Rightarrow> string) \<Rightarrow> json list \<Rightarrow> string list" where
  "posting_ids rep [] = []"
| "posting_ids rep (item # rest) = (case posting_key rep item of
      None \<Rightarrow> posting_ids rep rest
    | Some k \<Rightarrow> k # posting_ids rep rest)"

text \<open>
  The identifiers of the records processed by a run that requested the given pages.
\<close>

definition processed_ids :: "(json \<Rightarrow> string) \<Rightarrow> (int \<Rightarrow> response) \<Rightarrow> int list \<Rightarrow> string set" where
  "processed_ids rep api pages = (\<Union>q \<in> set pages. set (posting_ids rep (processed_records (api q))))"

text \<open>
  The items of the listing array that a response returned, when that is a list.
\<close>

definition page_records :: "response \<Rightarrow> json list" where
  "page_records r = (case listing_array r of
      Some (JList xs) \<Rightarrow> xs
    | _ \<Rightarrow> [])"

text \<open>
  A response all of whose listing items are records, that is, dictionaries.
\<close>

definition records_only :: "response \<Rightarrow> bool" where
  "records_only r = list_all is_dict (page_records r)"

text \<open>
  The identifiers fetched by a run that requested the given pages: the string coercions
  of the identifiers of all the records that the responses returned.
\<close>

definition fetched_ids :: "(json \<Rightarrow> string) \<Rightarrow> (int \<Rightarrow> response) \<Rightarrow> int list \<Rightarrow> string set" where
  "fetched_ids rep api pages = (\<Union>q \<in> set pages. set (posting_ids rep (page_records (api q))))"

text \<open>
  The invariant of the session accumulator: its keys are distinct, and each is the identifier of the record stored under it.
\<close>

definition keyed_by_id :: "(json \<Rightarrow> string) \<Rightarrow> (string \<times> json) list \<Rightarrow> bool" where
  "keyed_by_id rep sess =
     (distinct (map fst sess) \<and> (\<forall>(k, item) \<in> set sess. posting_key rep item = Some k))"

text \<open>
  The same for a listing array taken by itself.
\<close>

definition array_records :: "json \<Rightarrow> json list" where
  "array_records l = (case l of JList xs \<Rightarrow> takeWhile is_dict xs | _ \<Rightarrow> [])"

text \<open>
  What a stretch of the run that requested the pages \<open>new\<close> does to the scraper: the pages are logged, the seen set is untouched, and the keys of the accumulator grow by exactly the non-empty identifiers fetched that were not seen before.
\<close>

definition session_step ::
  "(json \<Rightarrow> string) \<Rightarrow> (int \<Rightarrow> response) \<Rightarrow> scraper \<Rightarrow> scraper \<Rightarrow> int list \<Rightarrow> bool" where
  "session_step rep api sc sc' new =
     (requested sc' = requested sc @ new \<and>
      seen_posting_ids sc' = seen_posting_ids sc \<and>
      fst ` set (new_listings_this_session sc') =
        fst ` set (new_listings_this_session sc) \<union>
          (processed_ids rep api new - {[]} - seen_posting_ids sc) \<and>
      (keyed_by_id rep (new_listings_this_session sc) \<longrightarrow>
         keyed_by_id rep (new_listings_this_session sc')))"

text \<open>
  The identifier of a flat row, coerced as the scraper coerces it.
\<close>

definition row_id :: "(json \<Rightarrow> string) \<Rightarrow> flat_item \<Rightarrow> string" where
  "row_id rep row = py_str rep (postingId row)"

text \<open>
  Site B: the identifier of a record, \<^verbatim>\<open>str(item['id'])\<close>, when the subscription does not raise.
\<close>

definition item_id :: "(json \<Rightarrow> string) \<Rightarrow> json \<Rightarrow> string option" where
  "item_id rep item = (case getitem item (Key ''id'') of
      Inl e \<Rightarrow> None
    | Inr v \<Rightarrow> Some (py_str rep v))"

text \<open>
  Site B: the identifiers of a list of records, in order.
\<close>

fun listing_ids :: "(json \<Rightarrow> string) \<Rightarrow> json list \<Rightarrow> string list" where
  "listing_ids rep [] = []"
| "listing_ids rep (item # rest) = (case item_id rep item of
      None \<Rightarrow> listing_ids rep rest
    | Some k \<Rightarrow> k # listing_ids rep rest)"

text \<open>
  Site B: the invariant of the dictionary built by the comprehension.
\<close>

definition keyed_by_item_id :: "(json \<Rightarrow> string) \<Rightarrow> (string \<times> json) list \<Rightarrow> bool" where
  "keyed_by_item_id rep d =
     (distinct (map fst d) \<and> (\<forall>(k, item) \<in> set d. item_id rep item = Some k))"

text \<open>
  Site B: the identifiers that the loader reads from the output file, as strings (the
  \<^verbatim>\<open>None\<close> of a short row equals no string).
\<close>

definition ids_read :: "out_file \<Rightarrow> string set" where
  "ids_read f = Option.these (load_existing_ids f)"

text \<open>
  Site B: the cell written in the \<open>id\<close> column for a record that has an \<open>id\<close>.
\<close>

definition id_cell :: "(json \<Rightarrow> string) \<Rightarrow> json \<Rightarrow> string" where
  "id_cell rep item = (case getitem item (Key ''id'') of
      Inr v \<Rightarrow> csv_cell rep v
    | Inl e \<Rightarrow> [])"

text \<open>
  A full page: status 200 and a non-empty listing array all of whose items are dictionaries.
\<close>

definition full_page :: "response \<Rightarrow> bool" where
  "full_page r = (case listing_array r of
      Some (JList xs) \<Rightarrow> xs \<noteq> [] \<and> list_all is_dict xs
    | _ \<Rightarrow> False)"

text \<open>
  An empty page: status 200 and an empty (falsy) listing array.
\<close>

definition empty_page :: "response \<Rightarrow> bool" where
  "empty_page r = (case listing_array r of Some l \<Rightarrow> \<not> truthy l | None \<Rightarrow> False)"

text \<open>
  \<^verbatim>\<open>_save_state(page)\<close> completes on the state \<open>st\<close>: the state is a dictionary and
  the write of the updated state completes.
\<close>

definition save_succeeds :: "(json \<Rightarrow> write_outcome) \<Rightarrow> json \<Rightarrow> int \<Rightarrow> bool" where
  "save_succeeds store st page = (case st of
      JObj kvs \<Rightarrow> store (JObj (dict_set kvs ''last_page'' (JInt page))) = Written
    | _ \<Rightarrow> False)"

text \<open>
  \<^verbatim>\<open>_save_state(page)\<close> on the state \<open>st\<close> gets as far as \<^verbatim>\<open>json.dump\<close>, which
  raises.
\<close>

definition dump_raises :: "(json \<Rightarrow> write_outcome) \<Rightarrow> json \<Rightarrow> int \<Rightarrow> bool" where
  "dump_raises store st page = (case st of
      JObj kvs \<Rightarrow>
        (case store (JObj (dict_set kvs ''last_page'' (JInt page))) of
           DumpRaises e \<Rightarrow> True
         | _ \<Rightarrow> False)
    | _ \<Rightarrow> False)"

text \<open>
  The page cap does not cut a run of \<open>N\<close> pages short: it is unset, \<open>0\<close> (which Python treats as unset) or at least \<open>N\<close>.
\<close>

definition cap_allows :: "int option \<Rightarrow> nat \<Rightarrow> bool" where
  "cap_allows max_pages N = (case max_pages of None \<Rightarrow> True | Some m \<Rightarrow> m = 0 \<or> int N \<le> m)"

text \<open>
  The \<open>k\<close> consecutive pages from \<open>p\<close> on.
\<close>

definition pages_from :: "int \<Rightarrow> nat \<Rightarrow> int list" where
  "pages_from p k = map (\<lambda>i. p + int i) [0..<k]"

text \<open>
  What \<open>k\<close> full pages in a row leave behind.
\<close>

definition after_pages :: "scraper \<Rightarrow> int \<Rightarrow> nat \<Rightarrow> scraper \<Rightarrow> bool" where
  "after_pages sc p k sc' =
     (requested sc' = requested sc @ pages_from p k \<and>
      (\<exists>kvs'. state sc' = JObj kvs' \<and>
         (0 < k \<longrightarrow> map_of kvs' ''last_page'' = Some (JInt (p + int k - 1)) \<and>
                    state_file_contents sc' = Stored (JObj kvs'))) \<and>
      (k = 0 \<longrightarrow> sc' = sc))"

text \<open>
  A stand-in for \<^verbatim>\<open>str.lower\<close> in the examples (the labels there are lower case).
\<close>

definition ex_lower :: "string \<Rightarrow> string" where
  "ex_lower s = s"

text \<open>
  An API with the given records on page 1 and empty pages after it.
\<close>

definition one_page_api :: "json list \<Rightarrow> int \<Rightarrow> response" where
  "one_page_api records page =
     (if page = 1 then Resp 200 (Json (JObj [(''listPostings'', JList records)]))
      else empty_api page)"

text \<open>
  The pages requested by a call of \<^verbatim>\<open>scrape\<close> that returned.
\<close>

definition pages_requested ::
  "(py_error + (string \<times> json) list \<times> scraper) option \<Rightarrow> int list option" where
  "pages_requested r = (case r of
      Some (Inr (sess, sc')) \<Rightarrow> Some (requested sc')
    | _ \<Rightarrow> None)"

text \<open>
  A record without an identifier: a dictionary with no \<open>postingId\<close> key, or a null one.
\<close>

definition id_less :: "json \<Rightarrow> bool" where
  "id_less item = (dict_get item ''postingId'' JNull = Inr JNull)"

text \<open>
  A stand-in for \<^verbatim>\<open>int\<close> on the command-line arguments of the examples.
\<close>

definition ex_py_int :: "string \<Rightarrow> int option" where
  "ex_py_int s = (if s = ''5'' then Some 5 else None)"

text \<open>
  A site-B API whose only record has no \<open>id\<close>.
\<close>

definition no_id_api :: "string \<Rightarrow> int \<Rightarrow> response" where
  "no_id_api city_slug total_size =
     Resp 200 (Json (JObj [(''hits'', JObj [(''hits'',
       JList [JObj [(''_source'', JObj [(''rent'', JInt 1200)])]])])]))"

text \<open>
  A site-B API that cannot be reached.
\<close>

definition unreachable_api :: "string \<Rightarrow> int \<Rightarrow> response" where
  "unreachable_api city_slug total_size = PostRaises"

text \<open>
  An output directory without files.
\<close>

definition no_files :: "string \<Rightarrow> out_file" where
  "no_files path = NoFile"

text \<open>
  A valid site-B command line: a page count and one city.
\<close>

definition ex_argv :: "string list" where
  "ex_argv = [''quintoandar_scraper.py'', ''5'', ''sao-paulo-sp-brasil'']"

text \<open>
  An API with \<open>N\<close> full pages, numbered from 1, and empty pages after them.
\<close>

definition paged_api :: "nat \<Rightarrow> int \<Rightarrow> response" where
  "paged_api N page =
     (if 1 \<le> page \<and> page \<le> int N
      then Resp 200 (Json (JObj [(''listPostings'', JList [JObj [(''postingId'', JInt page)]])]))
      else empty_api page)"

text \<open>
  The scraper after a run over \<open>one_page_api records\<close>: page 1, then the empty page 2.
\<close>

definition run_one_page :: "(json \<Rightarrow> string) \<Rightarrow> json list \<Rightarrow> string set \<Rightarrow> scraper" where
  "run_one_page rep records S =
     snd (scrape_page rep all_written (one_page_api records)
            (snd (scrape_page rep all_written (one_page_api records) (new_scraper S) 1)) 2)"

text \<open>
  The \<open>postingId\<close> column of the file written by a worker, if it wrote one.
\<close>

definition written_posting_ids ::
  "(py_error + flat_item list option \<times> scraper) option \<Rightarrow> json list option" where
  "written_posting_ids r = (case r of
      Some (Inr (Some rows, sc')) \<Rightarrow> Some (map postingId rows)
    | _ \<Rightarrow> None)"

text \<open>
  A page whose only record has the empty string as identifier.
\<close>

definition blank_id_records :: "json list" where
  "blank_id_records = [JObj [(''postingId'', JStr [])]]"

text \<open>
  A page of two records without identifier.
\<close>

definition id_less_records :: "json list" where
  "id_less_records = [JObj [(''title'', JStr ''Casa'')], JObj [(''title'', JStr ''Sobrado'')]]"

text \<open>
  A page of two records with identifiers 1 and 2.
\<close>

definition two_records :: "json list" where
  "two_records = [JObj [(''postingId'', JStr ''a1'')], JObj [(''postingId'', JStr ''a2'')]]"

text \<open>
  The flat row of a record that has at most an identifier and a title.
\<close>

definition blank_row :: "json \<Rightarrow> json \<Rightarrow> string \<Rightarrow> flat_item" where
  "blank_row pid ttl ts =
     \<lparr> postingId = pid, price = JNull, expenses = JNull, currency = JNull,
       bedrooms = JNull, suites = JNull, bathrooms = JNull, parking = JNull,
       area_m2 = JNull, location = JNull, latitude = JNull, longitude = JNull,
       title = ttl, description = JNull, publisher = JNull, full_url = JNull,
       retrievedDate = ts \<rparr>"

text \<open>
  An output directory with one prior file of the city and one of another city.
\<close>

definition ex_directory :: "(string \<times> csv_file) list option" where
  "ex_directory =
     Some [(''2024-01-01_10-00-00_itanhaem-sp_results.csv'', PostingIdColumn [Some ''a1'', None]),
           (''2024-01-01_10-00-00_santos-sp_results.csv'', PostingIdColumn [Some ''a2''])]"

text \<open>
  A site-B response with a repeated identifier.
\<close>

definition ex_hits :: response where
  "ex_hits = Resp 200 (Json (JObj [(''hits'', JObj [(''hits'', JList
     [JObj [(''_source'', JObj [(''id'', JStr ''q1''), (''coverImage'', JStr ''a.jpg'')])],
      JObj [(''_source'', JObj [(''id'', JStr ''q2''), (''coverImage'', JStr ''b.jpg'')])],
      JObj [(''_source'', JObj [(''id'', JStr ''q2''), (''coverImage'', JStr ''c.jpg'')])]])])]))"

text \<open>
  The row of 32 cells with the given \<open>id\<close> and \<open>coverImage\<close> cells and empty cells
  otherwise.
\<close>

definition ex_row :: "string \<Rightarrow> string \<Rightarrow> string list" where
  "ex_row i c = [i, c,
      [], [], [], [], [], [], [], [], [], [], [], [], [], [], [],
      [], [], [], [], [], [], [], [], [], [], [], [], [], [], []]"

text \<open>
  A site-B response whose only record has a null \<open>id\<close>.
\<close>

definition null_id_hits :: response where
  "null_id_hits = Resp 200 (Json (JObj [(''hits'', JObj [(''hits'', JList
     [JObj [(''_source'', JObj [(''id'', JNull)])]])])]))"

text \<open>
  A page whose only record has a null \<open>publisher\<close>.
\<close>

definition null_publisher_records :: "json list" where
  "null_publisher_records = [JObj [(''postingId'', JStr ''a1''), (''publisher'', JNull)]]"

text \<open>
  The pages requested by a worker that returned.
\<close>

definition task_requested ::
  "(py_error + flat_item list option \<times> scraper) option \<Rightarrow> int list option" where
  "task_requested r = (case r of
      Some (Inr (written, sc')) \<Rightarrow> Some (requested sc')
    | _ \<Rightarrow> None)"

text \<open>
  The state file that a call of \<^verbatim>\<open>scrape\<close> that returned leaves behind.
\<close>

definition final_state_file ::
  "(py_error + (string \<times> json) list \<times> scraper) option \<Rightarrow> state_file option" where
  "final_state_file r = (case r of
      Some (Inr (sess, sc')) \<Rightarrow> Some (state_file_contents sc')
    | _ \<Rightarrow> None)"

text \<open>
  The scraper after the first page of \<open>one_page_api two_records\<close>.
\<close>

definition interrupted_run :: scraper where
  "interrupted_run = snd (scrape_page ex_rep all_written (one_page_api two_records) (new_scraper {}) 1)"

text \<open>
  A listing with identifier, price and title.
\<close>

definition priced_listing :: json where
  "priced_listing = JObj ([(''postingId'', JInt 7)] @
     (''priceOperationTypes'',
        JList [JObj [(''prices'', JList [JObj [(''amount'', JInt 1500),
                                               (''currency'', JStr ''BRL'')]])]])
     # [(''title'', JStr ''Casa'')])"

section \<open>Properties of the site-A page fetch\<close>

lemma save_state_requested: "requested (snd (save_state store sc page)) = requested sc"
  by (simp add: save_state_def Let_def split: json.splits write_outcome.splits)

lemma scrape_page_requested:
  "requested (snd (scrape_page rep store api sc page)) = requested sc @ [page]"
  by (simp add: scrape_page_def Let_def save_state_def
      split: response.splits body.splits sum.splits prod.splits option.splits json.splits
        write_outcome.splits)

lemma record_listings_None:
  "snd (snd (record_listings rep seen xs sess n)) = None \<longleftrightarrow> list_all is_dict xs"
proof (induction xs arbitrary: sess n)
  case Nil
  then show ?case by simp
next
  case (Cons x xs)
  then show ?case by (cases x) (simp_all add: Let_def)
qed

lemma iterate_listings_None:
  "snd (snd (iterate_listings rep seen l sess)) = None \<longleftrightarrow>
     (\<exists>xs. l = JList xs \<and> list_all is_dict xs)"
  by (cases l) (simp_all add: record_listings_None)

lemma save_state_None:
  "fst (save_state store sc page) = None \<longleftrightarrow> save_succeeds store (state sc) page"
  by (simp add: save_state_def save_succeeds_def Let_def split: json.splits write_outcome.splits)

lemma full_page_iff:
  "full_page r \<longleftrightarrow>
     (\<exists>data xs. r = Resp 200 (Json data) \<and>
        dict_get data ''listPostings'' (JList []) = Inr (JList xs) \<and> xs \<noteq> [] \<and>
        list_all is_dict xs)"
  by (auto simp: full_page_def listing_array_def
      split: response.splits body.splits option.splits json.splits sum.splits if_splits)

text \<open>The page fetch in the one case where it gets as far as \<^verbatim>\<open>_save_state\<close>.\<close>

lemma scrape_page_full_page:
  assumes "full_page (api page)"
  shows "scrape_page rep store api sc page =
     (let sc1 = sc\<lparr>requested := requested sc @ [page]\<rparr>;
          r = iterate_listings rep (seen_posting_ids sc) (JList (page_records (api page)))
                (new_listings_this_session sc);
          sc2 = sc1\<lparr>new_listings_this_session := fst r,
                  new_listings_count := new_listings_count sc + fst (snd r)\<rparr>
      in (fst (save_state store sc2 page) = None, snd (save_state store sc2 page)))"
proof -
  from assms obtain data xs where
    r: "api page = Resp 200 (Json data)" "dict_get data ''listPostings'' (JList []) = Inr (JList xs)"
      "xs \<noteq> []" "list_all is_dict xs"
    unfolding full_page_iff by blast
  have p: "page_records (api page) = xs"
    using r by (simp add: page_records_def listing_array_def)
  obtain sess cnt where it: "record_listings rep (seen_posting_ids sc) xs
      (new_listings_this_session sc) 0 = (sess, cnt, None)"
    using record_listings_None [of rep "seen_posting_ids sc" xs "new_listings_this_session sc" 0] r(4)
    by (cases "record_listings rep (seen_posting_ids sc) xs (new_listings_this_session sc) 0") auto
  show ?thesis
    unfolding p
    by (simp add: scrape_page_def r it Let_def split: prod.splits option.splits)
qed

lemma scrape_page_not_full:
  assumes "\<not> full_page (api page)"
  shows "\<not> fst (scrape_page rep store api sc page)"
    and "state_file_contents (snd (scrape_page rep store api sc page)) = state_file_contents sc"
    and "state (snd (scrape_page rep store api sc page)) = state sc"
proof -
  have "\<not> fst (scrape_page rep store api sc page) \<and>
     state_file_contents (snd (scrape_page rep store api sc page)) = state_file_contents sc \<and>
     state (snd (scrape_page rep store api sc page)) = state sc"
  proof (cases "api page")
    case PostRaises
    then show ?thesis by (simp add: scrape_page_def Let_def)
  next
    case (Resp status b)
    show ?thesis
    proof (cases "status = 200")
      case False
      with Resp show ?thesis by (simp add: scrape_page_def Let_def)
    next
      case True
      show ?thesis
      proof (cases b)
        case BadJson
        with Resp True show ?thesis by (simp add: scrape_page_def Let_def)
      next
        case (Json data)
        show ?thesis
        proof (cases "dict_get data ''listPostings'' (JList [])")
          case (Inl e)
          with Resp True Json show ?thesis by (simp add: scrape_page_def Let_def)
        next
          case (Inr l)
          show ?thesis
          proof (cases "truthy l")
            case False
            with Resp True Json Inr show ?thesis by (simp add: scrape_page_def Let_def)
          next
            case t: True
            have nl: "\<not> (\<exists>xs. l = JList xs \<and> list_all is_dict xs)"
            proof
              assume "\<exists>xs. l = JList xs \<and> list_all is_dict xs"
              then obtain xs where "l = JList xs" "list_all is_dict xs" by blast
              with t Resp True Json Inr have "full_page (api page)"
                unfolding full_page_iff by simp
              with assms show False by simp
            qed
            obtain sess cnt e where it: "iterate_listings rep (seen_posting_ids sc) l
                (new_listings_this_session sc) = (sess, cnt, Some e)"
              using iterate_listings_None [of rep "seen_posting_ids sc" l
                  "new_listings_this_session sc"] nl
              by (cases "iterate_listings rep (seen_posting_ids sc) l
                    (new_listings_this_session sc)") auto
            with Resp True Json Inr t show ?thesis
              by (simp add: scrape_page_def Let_def)
          qed
        qed
      qed
    qed
  qed
  then show "\<not> fst (scrape_page rep store api sc page)"
    and "state_file_contents (snd (scrape_page rep store api sc page)) = state_file_contents sc"
    and "state (snd (scrape_page rep store api sc page)) = state sc"
    by simp_all
qed

lemma scrape_page_True_iff:
  "fst (scrape_page rep store api sc page) \<longleftrightarrow>
     full_page (api page) \<and> save_succeeds store (state sc) page"
proof (cases "full_page (api page)")
  case True
  then show ?thesis
    by (simp add: scrape_page_full_page Let_def save_state_None)
next
  case False
  then show ?thesis by (simp add: scrape_page_not_full)
qed


lemma full_page_nonempty: "full_page r \<Longrightarrow> nonempty_page r"
  by (auto simp: full_page_def nonempty_page_def split: option.splits json.splits)

lemma save_state_file:
  "state_file_contents (snd (save_state store sc page)) =
     (if save_succeeds store (state sc) page
      then Stored (state (snd (save_state store sc page)))
      else if dump_raises store (state sc) page then Malformed
      else state_file_contents sc)"
  by (simp add: save_state_def save_succeeds_def dump_raises_def Let_def
      split: json.splits write_outcome.splits)

lemma save_state_state:
  "state sc = JObj kvs \<Longrightarrow>
     state (snd (save_state store sc page)) = JObj (dict_set kvs ''last_page'' (JInt page))"
  by (simp add: save_state_def Let_def split: write_outcome.splits)

lemma scrape_page_file:
  "state_file_contents (snd (scrape_page rep store api sc page)) =
     (if full_page (api page) \<and> save_succeeds store (state sc) page
      then Stored (state (snd (scrape_page rep store api sc page)))
      else if full_page (api page) \<and> dump_raises store (state sc) page then Malformed
      else state_file_contents sc)"
proof (cases "full_page (api page)")
  case True
  then show ?thesis
    by (simp add: scrape_page_full_page Let_def save_state_file)
next
  case False
  then show ?thesis by (simp add: scrape_page_not_full)
qed

lemma scrape_page_state:
  assumes "full_page (api page)" and "state sc = JObj kvs"
  shows "state (snd (scrape_page rep store api sc page)) =
     JObj (dict_set kvs ''last_page'' (JInt page))"
  using assms by (simp add: scrape_page_full_page Let_def save_state_state)

lemma map_of_dict_set: "map_of (dict_set kvs k v) k = Some v"
  by (induction kvs) auto

lemma scrape_page_True_saved:
  assumes "fst (scrape_page rep store api sc page)"
  shows "\<exists>kvs. state sc = JObj kvs \<and>
           state (snd (scrape_page rep store api sc page)) =
             JObj (dict_set kvs ''last_page'' (JInt page)) \<and>
           state_file_contents (snd (scrape_page rep store api sc page)) =
             Stored (JObj (dict_set kvs ''last_page'' (JInt page)))"
proof -
  from assms have f: "full_page (api page)" and s: "save_succeeds store (state sc) page"
    by (simp_all add: scrape_page_True_iff)
  from s obtain kvs where k: "state sc = JObj kvs"
    by (cases "state sc") (simp_all add: save_succeeds_def)
  from f s k show ?thesis
    by (simp add: scrape_page_file scrape_page_state)
qed

lemma scrape_page_True_nonempty:
  "fst (scrape_page rep store api sc page) \<Longrightarrow> nonempty_page (api page)"
  by (simp add: scrape_page_True_iff full_page_nonempty)

lemma scrape_page_False_file:
  assumes "\<not> fst (scrape_page rep store api sc page)"
  shows "state_file_contents (snd (scrape_page rep store api sc page)) =
     (if full_page (api page) \<and> dump_raises store (state sc) page then Malformed
      else state_file_contents sc)"
proof -
  from assms have "\<not> (full_page (api page) \<and> save_succeeds store (state sc) page)"
    by (simp add: scrape_page_True_iff)
  then show ?thesis
    by (simp only: scrape_page_file if_False)
qed

lemma scrape_loop_stop:
  assumes "\<not> cap_reached max_pages n" and "\<not> fst (scrape_page rep store api sc page)"
  shows "scrape_loop rep store api delay max_pages sc page n =
           Some (None, snd (scrape_page rep store api sc page))"
  using assms by (subst scrape_loop.simps) simp

text \<open>
  C4, as the code has it.  \<^verbatim>\<open>scrape_page\<close> returns \<^verbatim>\<open>True\<close> exactly when the response
  has status 200 and a non-empty listing array that is a list of records, and
  \<^verbatim>\<open>_save_state\<close> completes; so an empty listing array, a status other than 200 and every
  exception of the fetch (the post raising, a body that is not decodable or not a
  dictionary, a listing array that cannot be iterated over or holds an item that is not a
  record, \<^verbatim>\<open>_save_state\<close> raising) give \<^verbatim>\<open>False\<close>.  Whenever \<^verbatim>\<open>scrape_page\<close>
  returns \<^verbatim>\<open>False\<close>, the pagination loop ends there without an exception in flight,
  having requested that one page and no further one, and the state file is as it was before
  the iteration, with one exception: when \<^verbatim>\<open>json.dump\<close> raised inside
  \<^verbatim>\<open>_save_state\<close>, after the file was opened for writing, the file is left truncated.
  The state file changes only in an iteration whose fetch returned status 200 with a
  non-empty listing array, and a fetch that returns \<^verbatim>\<open>True\<close> leaves the state with
  \<open>last_page\<close> set to that page in it.
\<close>

theorem failed_page_stops_pagination:
  "(fst (scrape_page rep store api sc page) \<longleftrightarrow>
      full_page (api page) \<and> save_succeeds store (state sc) page) \<and>
   (\<not> nonempty_page (api page) \<longrightarrow> \<not> fst (scrape_page rep store api sc page)) \<and>
   (\<not> fst (scrape_page rep store api sc page) \<longrightarrow>
      requested (snd (scrape_page rep store api sc page)) = requested sc @ [page] \<and>
      (\<not> cap_reached max_pages n \<longrightarrow>
         scrape_loop rep store api delay max_pages sc page n =
           Some (None, snd (scrape_page rep store api sc page))) \<and>
      state_file_contents (snd (scrape_page rep store api sc page)) =
        (if full_page (api page) \<and> dump_raises store (state sc) page then Malformed
         else state_file_contents sc)) \<and>
   (state_file_contents (snd (scrape_page rep store api sc page)) \<noteq> state_file_contents sc \<longrightarrow>
      nonempty_page (api page)) \<and>
   (fst (scrape_page rep store api sc page) \<longrightarrow>
      (\<exists>kvs. state sc = JObj kvs \<and>
         state_file_contents (snd (scrape_page rep store api sc page)) =
           Stored (JObj (dict_set kvs ''last_page'' (JInt page))) \<and>
         map_of (dict_set kvs ''last_page'' (JInt page)) ''last_page'' = Some (JInt page)))"
proof (intro conjI impI)
  show "fst (scrape_page rep store api sc page) \<longleftrightarrow>
      full_page (api page) \<and> save_succeeds store (state sc) page"
    by (rule scrape_page_True_iff)
next
  assume "\<not> nonempty_page (api page)"
  then show "\<not> fst (scrape_page rep store api sc page)"
    using scrape_page_True_nonempty by blast
next
  show "requested (snd (scrape_page rep store api sc page)) = requested sc @ [page]"
    by (rule scrape_page_requested)
next
  assume "\<not> fst (scrape_page rep store api sc page)" and "\<not> cap_reached max_pages n"
  then show "scrape_loop rep store api delay max_pages sc page n =
      Some (None, snd (scrape_page rep store api sc page))"
    by (simp add: scrape_loop_stop)
next
  assume "\<not> fst (scrape_page rep store api sc page)"
  then show "state_file_contents (snd (scrape_page rep store api sc page)) =
      (if full_page (api page) \<and> dump_raises store (state sc) page then Malformed
       else state_file_contents sc)"
    by (rule scrape_page_False_file)
next
  assume "state_file_contents (snd (scrape_page rep store api sc page)) \<noteq> state_file_contents sc"
  then have "full_page (api page)"
    by (auto simp: scrape_page_file split: if_splits)
  then show "nonempty_page (api page)" by (rule full_page_nonempty)
next
  assume "fst (scrape_page rep store api sc page)"
  from scrape_page_True_saved [OF this]
  show "\<exists>kvs. state sc = JObj kvs \<and>
         state_file_contents (snd (scrape_page rep store api sc page)) =
           Stored (JObj (dict_set kvs ''last_page'' (JInt page))) \<and>
         map_of (dict_set kvs ''last_page'' (JInt page)) ''last_page'' = Some (JInt page)"
    by (auto simp: map_of_dict_set)
qed

text \<open>
  A page whose second item is not a record, and a state that is not a dictionary: both
  fetches return \<^verbatim>\<open>False\<close>, the state file keeps its contents and the loop ends.
\<close>

theorem failed_page_stops_pagination_witness:
  "\<not> full_page (one_page_api mixed_records 1) \<and>
   \<not> fst (scrape_page ex_rep all_written (one_page_api mixed_records)
           (fresh_scraper {} (JObj [(''last_page'', JInt 4)])
              (Stored (JObj [(''last_page'', JInt 4)]))) 1) \<and>
   state_file_contents (snd (scrape_page ex_rep all_written (one_page_api mixed_records)
           (fresh_scraper {} (JObj [(''last_page'', JInt 4)])
              (Stored (JObj [(''last_page'', JInt 4)]))) 1)) =
     Stored (JObj [(''last_page'', JInt 4)]) \<and>
   scrape_loop ex_rep all_written (one_page_api mixed_records) (Seconds 5) None
       (fresh_scraper {} (JObj [(''last_page'', JInt 4)])
          (Stored (JObj [(''last_page'', JInt 4)]))) 1 0 =
     Some (None, snd (scrape_page ex_rep all_written (one_page_api mixed_records)
           (fresh_scraper {} (JObj [(''last_page'', JInt 4)])
              (Stored (JObj [(''last_page'', JInt 4)]))) 1)) \<and>
   full_page (one_page_api two_records 1) \<and>
   \<not> save_succeeds all_written (JList []) 1 \<and>
   \<not> fst (scrape_page ex_rep all_written (one_page_api two_records)
           (fresh_scraper {} (JList []) (Stored (JList []))) 1) \<and>
   state_file_contents (snd (scrape_page ex_rep all_written (one_page_api two_records)
           (fresh_scraper {} (JList []) (Stored (JList []))) 1)) = Stored (JList [])"
proof -
  let ?sc = "fresh_scraper {} (JObj [(''last_page'', JInt 4)])
      (Stored (JObj [(''last_page'', JInt 4)]))"
  let ?sl = "fresh_scraper {} (JList []) (Stored (JList []))"
  have h: "\<not> full_page (one_page_api mixed_records 1)"
    by (simp add: full_page_def listing_array_def one_page_api_def mixed_records_def)
  have g: "full_page (one_page_api two_records 1)"
    by (simp add: full_page_def listing_array_def one_page_api_def two_records_def)
  have c: "\<not> cap_reached None 0"
    by (simp add: cap_reached_def)
  have s: "state_file_contents ?sc = Stored (JObj [(''last_page'', JInt 4)])"
    "state_file_contents ?sl = Stored (JList [])" "state ?sl = JList []"
    by (simp_all add: fresh_scraper_def)
  have n: "\<not> save_succeeds all_written (JList []) 1" "\<not> dump_raises all_written (JList []) 1"
    by (simp_all add: save_succeeds_def dump_raises_def)
  from failed_page_stops_pagination
         [where rep = ex_rep and store = all_written and api = "one_page_api mixed_records"
            and sc = "?sc" and page = 1 and max_pages = None and n = 0 and delay = "Seconds 5"]
       failed_page_stops_pagination
         [where rep = ex_rep and store = all_written and api = "one_page_api two_records"
            and sc = "?sl" and page = 1 and max_pages = None and n = 0 and delay = "Seconds 5"]
       h g c s n
  show ?thesis by simp
qed

text \<open>
  C4 as stated fails when the exception is raised while the state file is rewritten: on a
  full disk the fetch of a non-empty page returns \<^verbatim>\<open>False\<close>, and the state file, which
  held \<^verbatim>\<open>{"last_page": 4}\<close>, is left truncated.
\<close>

theorem failed_dump_truncates_state_file:
  "nonempty_page (one_page_api two_records 1) \<and>
   \<not> fst (scrape_page ex_rep disk_full (one_page_api two_records)
           (fresh_scraper {} (JObj [(''last_page'', JInt 4)])
              (Stored (JObj [(''last_page'', JInt 4)]))) 1) \<and>
   state_file_contents (snd (scrape_page ex_rep disk_full (one_page_api two_records)
           (fresh_scraper {} (JObj [(''last_page'', JInt 4)])
              (Stored (JObj [(''last_page'', JInt 4)]))) 1)) = Malformed \<and>
   state_file_contents (fresh_scraper {} (JObj [(''last_page'', JInt 4)])
              (Stored (JObj [(''last_page'', JInt 4)]))) = Stored (JObj [(''last_page'', JInt 4)])"
  by (simp add: nonempty_page_def listing_array_def one_page_api_def empty_api_def
      two_records_def scrape_page_def save_state_def disk_full_def fresh_scraper_def Let_def)

section \<open>Site A: which identifiers a session records\<close>

lemma posting_key_dict:
  "posting_key rep (JObj kvs) =
     Some (py_str rep (case map_of kvs ''postingId'' of None \<Rightarrow> JNull | Some v \<Rightarrow> v))"
  by (simp add: posting_key_def)

lemma posting_ids_Nil: "posting_ids rep [] = []"
  by simp

lemma record_listings_keys:
  "record_listings rep seen xs sess n = (sess', n', e) \<Longrightarrow>
     fst ` set sess' = fst ` set sess \<union> (set (posting_ids rep (takeWhile is_dict xs)) - {[]} - seen)"
proof (induction xs arbitrary: sess n)
  case Nil
  then show ?case by simp
next
  case (Cons x xs)
  show ?case
  proof (cases x)
    case (JObj kvs)
    let ?pid = "py_str rep (case map_of kvs ''postingId'' of None \<Rightarrow> JNull | Some v \<Rightarrow> v)"
    show ?thesis
    proof (cases "?pid \<noteq> [] \<and> ?pid \<notin> seen \<and> ?pid \<notin> fst ` set sess")
      case True
      with Cons.prems JObj
      have "record_listings rep seen xs (sess @ [(?pid, x)]) (n + 1) = (sess', n', e)"
        by (simp add: Let_def)
      from Cons.IH [OF this] True JObj show ?thesis
        by (auto simp: posting_key_dict)
    next
      case False
      with Cons.prems JObj
      have "record_listings rep seen xs sess n = (sess', n', e)"
        by (auto simp: Let_def)
      from Cons.IH [OF this] False JObj show ?thesis
        by (auto simp: posting_key_dict)
    qed
  qed (use Cons.prems in auto)
qed

lemma record_listings_keyed:
  "record_listings rep seen xs sess n = (sess', n', e) \<Longrightarrow> keyed_by_id rep sess \<Longrightarrow>
     keyed_by_id rep sess'"
proof (induction xs arbitrary: sess n)
  case Nil
  then show ?case by simp
next
  case (Cons x xs)
  show ?case
  proof (cases x)
    case (JObj kvs)
    let ?pid = "py_str rep (case map_of kvs ''postingId'' of None \<Rightarrow> JNull | Some v \<Rightarrow> v)"
    show ?thesis
    proof (cases "?pid \<noteq> [] \<and> ?pid \<notin> seen \<and> ?pid \<notin> fst ` set sess")
      case True
      with Cons.prems JObj
      have r: "record_listings rep seen xs (sess @ [(?pid, x)]) (n + 1) = (sess', n', e)"
        by (simp add: Let_def)
      have "keyed_by_id rep (sess @ [(?pid, x)])"
        using Cons.prems(2) True JObj by (auto simp: keyed_by_id_def posting_key_def)
      from Cons.IH [OF r this] show ?thesis .
    next
      case False
      with Cons.prems JObj
      have "record_listings rep seen xs sess n = (sess', n', e)"
        by (auto simp: Let_def)
      from Cons.IH [OF this Cons.prems(2)] show ?thesis .
    qed
  qed (use Cons.prems in auto)
qed

lemma iterate_listings_keys:
  "iterate_listings rep seen l sess = (sess', n', e) \<Longrightarrow>
     fst ` set sess' = fst ` set sess \<union> (set (posting_ids rep (array_records l)) - {[]} - seen)"
  by (cases l) (auto simp: array_records_def posting_ids_Nil dest: record_listings_keys)

lemma iterate_listings_keyed:
  "iterate_listings rep seen l sess = (sess', n', e) \<Longrightarrow> keyed_by_id rep sess \<Longrightarrow>
     keyed_by_id rep sess'"
  by (cases l) (auto dest: record_listings_keyed)

lemma processed_records_array:
  "listing_array r = Some l \<Longrightarrow> processed_records r = array_records l"
  by (simp add: processed_records_def array_records_def)

lemma processed_records_none:
  "listing_array r = None \<Longrightarrow> processed_records r = []"
  by (simp add: processed_records_def)

lemma array_records_falsy: "\<not> truthy l \<Longrightarrow> array_records l = []"
  by (cases l) (auto simp: array_records_def)

text \<open>The accumulator after a page, in terms of the iteration over its listing array.\<close>

lemma scrape_page_session_cases:
  "(listing_array (api page) = None \<and>
      new_listings_this_session (snd (scrape_page rep store api sc page)) = new_listings_this_session sc) \<or>
   (\<exists>l. listing_array (api page) = Some l \<and> \<not> truthy l \<and>
      new_listings_this_session (snd (scrape_page rep store api sc page)) = new_listings_this_session sc) \<or>
   (\<exists>l. listing_array (api page) = Some l \<and> truthy l \<and>
      new_listings_this_session (snd (scrape_page rep store api sc page)) =
        fst (iterate_listings rep (seen_posting_ids sc) l (new_listings_this_session sc)))"
  by (auto simp: scrape_page_def Let_def save_state_def listing_array_def
      split: response.splits body.splits sum.splits prod.splits option.splits json.splits
        write_outcome.splits)

lemma scrape_page_seen:
  "seen_posting_ids (snd (scrape_page rep store api sc page)) = seen_posting_ids sc"
  by (simp add: scrape_page_def Let_def save_state_def
      split: response.splits body.splits sum.splits prod.splits option.splits json.splits
        write_outcome.splits)

lemma scrape_page_session:
  "fst ` set (new_listings_this_session (snd (scrape_page rep store api sc page))) =
     fst ` set (new_listings_this_session sc) \<union>
       (set (posting_ids rep (processed_records (api page))) - {[]} - seen_posting_ids sc)"
proof -
  consider
    (none) "listing_array (api page) = None"
      "new_listings_this_session (snd (scrape_page rep store api sc page)) = new_listings_this_session sc"
  | (falsy) l where "listing_array (api page) = Some l" "\<not> truthy l"
      "new_listings_this_session (snd (scrape_page rep store api sc page)) = new_listings_this_session sc"
  | (iter) l where "listing_array (api page) = Some l" "truthy l"
      "new_listings_this_session (snd (scrape_page rep store api sc page)) =
        fst (iterate_listings rep (seen_posting_ids sc) l (new_listings_this_session sc))"
    using scrape_page_session_cases [of api page rep store sc] by (elim disjE exE conjE) blast+
  then show ?thesis
  proof cases
    case none
    then show ?thesis by (simp add: processed_records_none)
  next
    case falsy
    then show ?thesis
      by (simp add: processed_records_array array_records_falsy)
  next
    case iter
    obtain sess' n' e where it:
      "iterate_listings rep (seen_posting_ids sc) l (new_listings_this_session sc) = (sess', n', e)"
      by (cases "iterate_listings rep (seen_posting_ids sc) l (new_listings_this_session sc)") auto
    from iterate_listings_keys [OF it] iter it show ?thesis
      by (simp add: processed_records_array)
  qed
qed

lemma scrape_page_keyed:
  assumes "keyed_by_id rep (new_listings_this_session sc)"
  shows "keyed_by_id rep (new_listings_this_session (snd (scrape_page rep store api sc page)))"
proof -
  consider
    (same) "new_listings_this_session (snd (scrape_page rep store api sc page)) = new_listings_this_session sc"
  | (iter) l where
      "new_listings_this_session (snd (scrape_page rep store api sc page)) =
        fst (iterate_listings rep (seen_posting_ids sc) l (new_listings_this_session sc))"
    using scrape_page_session_cases [of api page rep store sc] by (elim disjE exE conjE) blast+
  then show ?thesis
  proof cases
    case same
    with assms show ?thesis by simp
  next
    case iter
    obtain sess' n' e where it:
      "iterate_listings rep (seen_posting_ids sc) l (new_listings_this_session sc) = (sess', n', e)"
      by (cases "iterate_listings rep (seen_posting_ids sc) l (new_listings_this_session sc)") auto
    from iterate_listings_keyed [OF it assms] iter it show ?thesis by simp
  qed
qed

lemma processed_ids_single:
  "processed_ids rep api [q] = set (posting_ids rep (processed_records (api q)))"
  by (simp add: processed_ids_def)

text \<open>The loop invariant, by induction over the returning runs of the loop.\<close>

lemma processed_ids_Cons:
  "processed_ids rep api (q # qs) =
     set (posting_ids rep (processed_records (api q))) \<union> processed_ids rep api qs"
  by (simp add: processed_ids_def)

lemma processed_ids_Nil: "processed_ids rep api [] = {}"
  by (simp add: processed_ids_def)

lemma session_step_refl: "session_step rep api sc sc []"
  by (simp add: session_step_def processed_ids_Nil)

lemma session_step_page:
  "session_step rep api sc (snd (scrape_page rep store api sc p)) [p]"
  unfolding session_step_def processed_ids_single
  using scrape_page_requested [of rep store api sc p] scrape_page_seen [of rep store api sc p]
    scrape_page_session [of rep store api sc p] scrape_page_keyed [of rep sc store api p]
  by blast

lemma session_step_trans:
  assumes "session_step rep api sc sc1 [p]" and "session_step rep api sc1 sc2 new"
  shows "session_step rep api sc sc2 (p # new)"
proof -
  have r: "requested sc2 = requested sc @ (p # new)"
    using assms by (simp add: session_step_def)
  have s: "seen_posting_ids sc2 = seen_posting_ids sc"
    using assms by (simp add: session_step_def)
  have k1: "fst ` set (new_listings_this_session sc1) =
      fst ` set (new_listings_this_session sc) \<union>
        (processed_ids rep api [p] - {[]} - seen_posting_ids sc)"
    using assms(1) by (simp add: session_step_def)
  have k2: "fst ` set (new_listings_this_session sc2) =
      fst ` set (new_listings_this_session sc1) \<union>
        (processed_ids rep api new - {[]} - seen_posting_ids sc)"
    using assms by (simp add: session_step_def)
  have f: "processed_ids rep api (p # new) = processed_ids rep api [p] \<union> processed_ids rep api new"
    by (simp add: processed_ids_def)
  have k: "fst ` set (new_listings_this_session sc2) =
      fst ` set (new_listings_this_session sc) \<union>
        (processed_ids rep api (p # new) - {[]} - seen_posting_ids sc)"
    unfolding k2 k1 f by blast
  have d: "keyed_by_id rep (new_listings_this_session sc) \<longrightarrow>
      keyed_by_id rep (new_listings_this_session sc2)"
    using assms by (simp add: session_step_def)
  from r s k d show ?thesis
    unfolding session_step_def by blast
qed

text \<open>The loop invariant, by induction over the returning runs of the loop.\<close>

lemma scrape_loop_session:
  assumes "scrape_loop rep store api delay max_pages sc p n = Some y"
  shows "\<exists>new. session_step rep api sc (snd y) new"
proof (rule scrape_loop.raw_induct
    [where P = "\<lambda>rep store api delay max_pages sc p n y. \<exists>new. session_step rep api sc (snd y) new",
      OF _ assms])
  fix f :: "(json \<Rightarrow> string) \<Rightarrow> (json \<Rightarrow> write_outcome) \<Rightarrow> (int \<Rightarrow> response) \<Rightarrow> seconds
     \<Rightarrow> int option \<Rightarrow> scraper \<Rightarrow> int \<Rightarrow> nat
     \<Rightarrow> (py_error option \<times> scraper) option"
  fix rep store api delay max_pages sc p n y
  assume IH: "\<And>rep store api delay max_pages sc p n y.
      f rep store api delay max_pages sc p n = Some y \<Longrightarrow> \<exists>new. session_step rep api sc (snd y) new"
  assume eq: "(if cap_reached max_pages n then Some (None, sc)
      else if \<not> fst (scrape_page rep store api sc p)
        then Some (None, snd (scrape_page rep store api sc p))
      else case time_sleep delay of
             Inl e \<Rightarrow> Some (Some e, snd (scrape_page rep store api sc p))
           | Inr u \<Rightarrow>
               f rep store api delay max_pages (snd (scrape_page rep store api sc p))
                 (p + 1) (n + 1)) = Some y"
  let ?sc1 = "snd (scrape_page rep store api sc p)"
  note one = session_step_page [of rep api sc store p]
  show "\<exists>new. session_step rep api sc (snd y) new"
  proof (cases "cap_reached max_pages n")
    case True
    with eq have "snd y = sc" by auto
    then have "session_step rep api sc (snd y) []"
      by (simp add: session_step_refl)
    then show ?thesis by (rule exI)
  next
    case False
    note nocap = this
    show ?thesis
    proof (cases "fst (scrape_page rep store api sc p)")
      case False
      with nocap eq have "snd y = ?sc1" by auto
      with one have "session_step rep api sc (snd y) [p]" by simp
      then show ?thesis by (rule exI)
    next
      case True
      note ok = this
      show ?thesis
      proof (cases "time_sleep delay")
        case (Inl e)
        with nocap ok eq have "snd y = ?sc1" by auto
        with one have "session_step rep api sc (snd y) [p]" by simp
        then show ?thesis by (rule exI)
      next
        case (Inr u)
        with nocap ok eq
        have "f rep store api delay max_pages ?sc1 (p + 1) (n + 1) = Some y" by simp
        from IH [OF this] obtain new where "session_step rep api ?sc1 (snd y) new" by blast
        from session_step_trans [OF one this] show ?thesis by (rule exI)
      qed
    qed
  qed
qed

section \<open>Site A: what a successful flattening consists of\<close>

lemma and_thenE:
  assumes "and_then r f = Inr y"
  obtains x where "r = Inr x" and "f x = Inr y"
  using assms by (cases r) (auto simp: and_then_def)

lemma flatten_Inr:
  assumes "flatten lower ts x = Inr row"
  shows "\<exists>p c e b ba a s pk l la lo u pid t d pub nm.
    price_block x = Inr (p, c) \<and> expenses_block x = Inr e
    \<and> features_block lower x = Inr (b, ba, a, s, pk)
    \<and> location_block x = Inr (l, la, lo) \<and> url_block x = Inr u
    \<and> dict_get x ''postingId'' JNull = Inr pid \<and> dict_get x ''title'' JNull = Inr t
    \<and> dict_get x ''descriptionNormalized'' JNull = Inr d
    \<and> dict_get x ''publisher'' (JObj []) = Inr pub \<and> dict_get pub ''name'' JNull = Inr nm
    \<and> row = \<lparr> postingId = pid, price = p, expenses = e, currency = c,
              bedrooms = b, suites = s, bathrooms = ba, parking = pk, area_m2 = a,
              location = l, latitude = la, longitude = lo, title = t, description = d,
              publisher = nm, full_url = u, retrievedDate = ts \<rparr>"
proof -
  from assms obtain pc where 1: "price_block x = Inr pc"
    and r1: "(case pc of (v_price, v_currency) \<Rightarrow>
     and_then (expenses_block x) (\<lambda>v_expenses.
     and_then (features_block lower x)
       (\<lambda>(v_bedrooms, v_bathrooms, v_area, v_suites, v_parking).
     and_then (location_block x) (\<lambda>(v_location, v_latitude, v_longitude).
     and_then (url_block x) (\<lambda>v_full_url.
     and_then (dict_get x ''postingId'' JNull) (\<lambda>v_posting_id.
     and_then (dict_get x ''title'' JNull) (\<lambda>v_title.
     and_then (dict_get x ''descriptionNormalized'' JNull) (\<lambda>v_description.
     and_then (dict_get x ''publisher'' (JObj [])) (\<lambda>pub.
     and_then (dict_get pub ''name'' JNull) (\<lambda>v_publisher.
        Inr \<lparr> postingId = v_posting_id, price = v_price, expenses = v_expenses,
              currency = v_currency, bedrooms = v_bedrooms, suites = v_suites,
              bathrooms = v_bathrooms, parking = v_parking, area_m2 = v_area,
              location = v_location, latitude = v_latitude, longitude = v_longitude,
              title = v_title, description = v_description, publisher = v_publisher,
              full_url = v_full_url, retrievedDate = ts \<rparr>)))))))))) = Inr row"
    unfolding flatten_def by (rule and_thenE)
  obtain p c where pc: "pc = (p, c)" by (cases pc)
  from r1 [unfolded pc prod.case] obtain e fb where 2: "expenses_block x = Inr e"
    and 3: "features_block lower x = Inr fb"
    and r3: "(case fb of (v_bedrooms, v_bathrooms, v_area, v_suites, v_parking) \<Rightarrow>
     and_then (location_block x) (\<lambda>(v_location, v_latitude, v_longitude).
     and_then (url_block x) (\<lambda>v_full_url.
     and_then (dict_get x ''postingId'' JNull) (\<lambda>v_posting_id.
     and_then (dict_get x ''title'' JNull) (\<lambda>v_title.
     and_then (dict_get x ''descriptionNormalized'' JNull) (\<lambda>v_description.
     and_then (dict_get x ''publisher'' (JObj [])) (\<lambda>pub.
     and_then (dict_get pub ''name'' JNull) (\<lambda>v_publisher.
        Inr \<lparr> postingId = v_posting_id, price = p, expenses = e,
              currency = c, bedrooms = v_bedrooms, suites = v_suites,
              bathrooms = v_bathrooms, parking = v_parking, area_m2 = v_area,
              location = v_location, latitude = v_latitude, longitude = v_longitude,
              title = v_title, description = v_description, publisher = v_publisher,
              full_url = v_full_url, retrievedDate = ts \<rparr>)))))))) = Inr row"
    by (elim and_thenE)
  obtain b ba a s pk where fb: "fb = (b, ba, a, s, pk)" by (cases fb)
  from r3 [unfolded fb prod.case] obtain lb where 4: "location_block x = Inr lb"
    and r4: "(case lb of (v_location, v_latitude, v_longitude) \<Rightarrow>
     and_then (url_block x) (\<lambda>v_full_url.
     and_then (dict_get x ''postingId'' JNull) (\<lambda>v_posting_id.
     and_then (dict_get x ''title'' JNull) (\<lambda>v_title.
     and_then (dict_get x ''descriptionNormalized'' JNull) (\<lambda>v_description.
     and_then (dict_get x ''publisher'' (JObj [])) (\<lambda>pub.
     and_then (dict_get pub ''name'' JNull) (\<lambda>v_publisher.
        Inr \<lparr> postingId = v_posting_id, price = p, expenses = e,
              currency = c, bedrooms = b, suites = s,
              bathrooms = ba, parking = pk, area_m2 = a,
              location = v_location, latitude = v_latitude, longitude = v_longitude,
              title = v_title, description = v_description, publisher = v_publisher,
              full_url = v_full_url, retrievedDate = ts \<rparr>))))))) = Inr row"
    by (elim and_thenE)
  obtain l la lo where lb: "lb = (l, la, lo)" by (cases lb)
  from r4 [unfolded lb prod.case] obtain u pid t d pub nm where
    5: "url_block x = Inr u" "dict_get x ''postingId'' JNull = Inr pid"
      "dict_get x ''title'' JNull = Inr t" "dict_get x ''descriptionNormalized'' JNull = Inr d"
      "dict_get x ''publisher'' (JObj []) = Inr pub" "dict_get pub ''name'' JNull = Inr nm"
    and r5: "Inr \<lparr> postingId = pid, price = p, expenses = e,
              currency = c, bedrooms = b, suites = s,
              bathrooms = ba, parking = pk, area_m2 = a,
              location = l, latitude = la, longitude = lo,
              title = t, description = d, publisher = nm,
              full_url = u, retrievedDate = ts \<rparr> = (Inr row :: py_error + flat_item)"
    by (elim and_thenE)
  from r5 have "row = \<lparr> postingId = pid, price = p, expenses = e,
              currency = c, bedrooms = b, suites = s,
              bathrooms = ba, parking = pk, area_m2 = a,
              location = l, latitude = la, longitude = lo,
              title = t, description = d, publisher = nm,
              full_url = u, retrievedDate = ts \<rparr>"
    by (simp only: sum.inject)
  with 1 2 3 4 5 pc fb lb show ?thesis by blast
qed

section \<open>Site A: the identifiers of the rows written\<close>

lemma flatten_postingId:
  assumes "flatten lower ts x = Inr row"
  shows "dict_get x ''postingId'' JNull = Inr (postingId row)"
  using flatten_Inr [OF assms] by (elim exE conjE) simp

lemma flatten_row_id:
  assumes "flatten lower ts x = Inr row"
  shows "posting_key rep x = Some (row_id rep row)"
  using flatten_postingId [OF assms] by (simp add: posting_key_def row_id_def)

lemma flatten_all_row_ids:
  "flatten_all lower ts xs = Inr rows \<Longrightarrow> map (row_id rep) rows = posting_ids rep xs"
proof (induction xs arbitrary: rows)
  case Nil
  then show ?case by (simp add: posting_ids_Nil)
next
  case (Cons x xs)
  then obtain row rest where r: "flatten lower ts x = Inr row" "flatten_all lower ts xs = Inr rest"
    "rows = row # rest"
    by (auto split: sum.splits)
  from Cons.IH [OF r(2)] flatten_row_id [OF r(1), of rep] r(3) show ?case
    by simp
qed

lemma keyed_posting_ids:
  "keyed_by_id rep sess \<Longrightarrow> posting_ids rep (map snd sess) = map fst sess"
  by (induction sess) (auto simp: keyed_by_id_def)

lemma scrape_session:
  assumes "scrape rep store api (fresh_scraper S st f) start_page delay max_pages = Some (Inr (sess, sc'))"
  shows "keyed_by_id rep sess"
    and "fst ` set sess = processed_ids rep api (requested sc') - {[]} - S"
proof -
  from assms obtain p e where
    l: "scrape_loop rep store api delay max_pages (fresh_scraper S st f) p 0 = Some (e, sc')"
    and s: "sess = new_listings_this_session sc'"
    by (auto simp: scrape_def split: sum.splits option.splits)
  from scrape_loop_session [OF l] obtain new where
    "session_step rep api (fresh_scraper S st f) sc' new"
    by auto
  then have n: "requested sc' = requested (fresh_scraper S st f) @ new"
      "fst ` set (new_listings_this_session sc') =
         fst ` set (new_listings_this_session (fresh_scraper S st f)) \<union>
           (processed_ids rep api new - {[]} - seen_posting_ids (fresh_scraper S st f))"
      "keyed_by_id rep (new_listings_this_session (fresh_scraper S st f)) \<longrightarrow>
         keyed_by_id rep (new_listings_this_session sc')"
    by (simp_all add: session_step_def)
  from n(3) s show "keyed_by_id rep sess"
    by (simp add: new_scraper_def fresh_scraper_def keyed_by_id_def)
  from n(1,2) s show "fst ` set sess = processed_ids rep api (requested sc') - {[]} - S"
    by (simp add: new_scraper_def fresh_scraper_def)
qed

lemma task_written_ids:
  assumes "scrape_city_task rep store lower ts api dir sf cf slug start_page delay max_pages =
             Some (Inr (written, sc'))"
  shows "case written of
           None \<Rightarrow> processed_ids rep api (requested sc') - {[]}
                     - load_seen_ids_from_city_csvs dir slug = {}
         | Some rows \<Rightarrow>
             distinct (map (row_id rep) rows) \<and>
             set (map (row_id rep) rows) =
               processed_ids rep api (requested sc') - {[]}
                 - load_seen_ids_from_city_csvs dir slug"
proof -
  let ?S = "load_seen_ids_from_city_csvs dir slug"
  from assms obtain sess st where
    sc: "scrape rep store api (fresh_scraper ?S st sf) start_page delay max_pages =
           Some (Inr (sess, sc'))"
    and w: "if sess \<noteq> [] then save_new_listings_to_city_csv lower ts (map snd sess) = Inr written
            else written = None"
    by (auto simp: scrape_city_task_def init_scraper_def Let_def
        split: option.splits sum.splits if_splits)
  note k = scrape_session [OF sc]
  show ?thesis
  proof (cases "sess = []")
    case True
    with w k(2) show ?thesis by auto
  next
    case False
    with w obtain rows where rows: "flatten_all lower ts (map snd sess) = Inr rows"
      "written = Some rows"
      by (auto simp: save_new_listings_to_city_csv_def split: sum.splits)
    from flatten_all_row_ids [OF rows(1), of rep] keyed_posting_ids [OF k(1)]
    have "map (row_id rep) rows = map fst sess" by simp
    with k rows(2) show ?thesis
      by (simp add: keyed_by_id_def)
  qed
qed

section \<open>Site A: a record without its price key\<close>

lemma map_of_without_key:
  assumes "k' \<noteq> k"
  shows "map_of (xs @ (k, v) # ys) k' = map_of (xs @ ys) k'"
  using assms by (simp add: map_add_def split: option.splits)

lemma map_of_absent:
  assumes "k \<notin> fst ` set kvs"
  shows "map_of kvs k = None"
  using assms by (simp add: map_of_eq_None_iff)

lemma dict_get_without_key:
  assumes "k' \<noteq> k"
  shows "dict_get (JObj (xs @ (k, v) # ys)) k' d = dict_get (JObj (xs @ ys)) k' d"
  using map_of_without_key [OF assms, of xs v ys] by simp

lemma getpath_without_key:
  assumes "k' \<noteq> k"
  shows "getpath (JObj (xs @ (k, v) # ys)) (Key k' # ks) = getpath (JObj (xs @ ys)) (Key k' # ks)"
  using map_of_without_key [OF assms, of xs v ys] by simp

lemma price_block_absent:
  assumes "''priceOperationTypes'' \<notin> fst ` set kvs"
  shows "price_block (JObj kvs) = Inr (JNull, JNull)"
  using map_of_absent [OF assms] by (simp add: price_block_def except_pass_def)

lemma expenses_block_without:
  "expenses_block (JObj (xs @ (''priceOperationTypes'', v) # ys)) = expenses_block (JObj (xs @ ys))"
  unfolding expenses_block_def by (subst getpath_without_key) simp_all

lemma features_block_without:
  "features_block lower (JObj (xs @ (''priceOperationTypes'', v) # ys)) =
     features_block lower (JObj (xs @ ys))"
  unfolding features_block_def by (subst dict_get_without_key) simp_all

lemma location_block_without:
  "location_block (JObj (xs @ (''priceOperationTypes'', v) # ys)) = location_block (JObj (xs @ ys))"
  unfolding location_block_def
  by (subst getpath_without_key, simp, subst getpath_without_key, simp, rule refl)

lemma url_block_without:
  "url_block (JObj (xs @ (''priceOperationTypes'', v) # ys)) = url_block (JObj (xs @ ys))"
  unfolding url_block_def by (subst dict_get_without_key) simp_all

lemma flatten_components:
  assumes "price_block x = Inr (p, c)" and "expenses_block x = Inr e"
    and "features_block lower x = Inr (b, ba, a, s, pk)"
    and "location_block x = Inr (l, la, lo)" and "url_block x = Inr u"
    and "dict_get x ''postingId'' JNull = Inr pid" and "dict_get x ''title'' JNull = Inr t"
    and "dict_get x ''descriptionNormalized'' JNull = Inr d"
    and "dict_get x ''publisher'' (JObj []) = Inr pub" and "dict_get pub ''name'' JNull = Inr nm"
  shows "flatten lower ts x = Inr \<lparr> postingId = pid, price = p, expenses = e, currency = c,
              bedrooms = b, suites = s, bathrooms = ba, parking = pk, area_m2 = a,
              location = l, latitude = la, longitude = lo, title = t, description = d,
              publisher = nm, full_url = u, retrievedDate = ts \<rparr>"
  unfolding flatten_def and_then_def
  by (simp only: assms sum.case prod.case)

text \<open>
  C6.  For a record without the \<open>priceOperationTypes\<close> key, the price block gives
  \<open>price = None\<close> and \<open>currency = None\<close>, so these are the fields of its row; and if the
  same record with the key present (at any position, with any value) flattens to a row, the
  record without the key flattens to that row with just \<open>price\<close> and \<open>currency\<close>
  set to \<open>None\<close>: every other field is the same.
\<close>

theorem missing_price_key_only_blanks_price:
  assumes "''priceOperationTypes'' \<notin> fst ` set (xs @ ys)"
  shows "price_block (JObj (xs @ ys)) = Inr (JNull, JNull) \<and>
     (flatten lower ts (JObj (xs @ ys)) = Inr row \<longrightarrow> price row = JNull \<and> currency row = JNull) \<and>
     (flatten lower ts (JObj (xs @ (''priceOperationTypes'', v) # ys)) = Inr row' \<longrightarrow>
        flatten lower ts (JObj (xs @ ys)) = Inr (row'\<lparr>price := JNull, currency := JNull\<rparr>))"
proof (intro conjI impI)
  show pb: "price_block (JObj (xs @ ys)) = Inr (JNull, JNull)"
    using assms by (rule price_block_absent)
  {
    assume "flatten lower ts (JObj (xs @ ys)) = Inr row"
    from flatten_Inr [OF this] pb
    show "price row = JNull" and "currency row = JNull"
      by auto
  }
  assume w: "flatten lower ts (JObj (xs @ (''priceOperationTypes'', v) # ys)) = Inr row'"
  let ?x' = "JObj (xs @ (''priceOperationTypes'', v) # ys)"
  let ?x = "JObj (xs @ ys)"
  from flatten_Inr [OF w] obtain p c e b ba a s pk l la lo u pid t d pub nm where
    c: "expenses_block ?x' = Inr e" "features_block lower ?x' = Inr (b, ba, a, s, pk)"
      "location_block ?x' = Inr (l, la, lo)" "url_block ?x' = Inr u"
      "dict_get ?x' ''postingId'' JNull = Inr pid" "dict_get ?x' ''title'' JNull = Inr t"
      "dict_get ?x' ''descriptionNormalized'' JNull = Inr d"
      "dict_get ?x' ''publisher'' (JObj []) = Inr pub" "dict_get pub ''name'' JNull = Inr nm"
    and r: "row' = \<lparr> postingId = pid, price = p, expenses = e, currency = c,
              bedrooms = b, suites = s, bathrooms = ba, parking = pk, area_m2 = a,
              location = l, latitude = la, longitude = lo, title = t, description = d,
              publisher = nm, full_url = u, retrievedDate = ts \<rparr>"
    by blast
  have k: "''postingId'' \<noteq> ''priceOperationTypes''" "''title'' \<noteq> ''priceOperationTypes''"
    "''descriptionNormalized'' \<noteq> ''priceOperationTypes''"
    "''publisher'' \<noteq> ''priceOperationTypes''"
    by simp_all
  have c': "expenses_block ?x = Inr e" "features_block lower ?x = Inr (b, ba, a, s, pk)"
      "location_block ?x = Inr (l, la, lo)" "url_block ?x = Inr u"
      "dict_get ?x ''postingId'' JNull = Inr pid" "dict_get ?x ''title'' JNull = Inr t"
      "dict_get ?x ''descriptionNormalized'' JNull = Inr d"
      "dict_get ?x ''publisher'' (JObj []) = Inr pub"
    using c
    by (simp_all only: expenses_block_without features_block_without location_block_without
        url_block_without dict_get_without_key [OF k(1)] dict_get_without_key [OF k(2)]
        dict_get_without_key [OF k(3)] dict_get_without_key [OF k(4)])
  from flatten_components [OF pb c'(1,2,3,4,5,6,7,8) c(9), of ts]
  show "flatten lower ts ?x = Inr (row'\<lparr>price := JNull, currency := JNull\<rparr>)"
    by (simp add: r)
qed

section \<open>Site B: the listings selected for appending\<close>

lemma dict_set_keys: "fst ` set (dict_set d k v) = insert k (fst ` set d)"
proof (induction d)
  case Nil
  then show ?case by simp
next
  case (Cons e d)
  obtain k' v' where e: "e = (k', v')" by (cases e)
  show ?case
    using Cons e by (cases "k' = k") auto
qed

lemma dict_set_distinct: "distinct (map fst d) \<Longrightarrow> distinct (map fst (dict_set d k v))"
proof (induction d)
  case Nil
  then show ?case by simp
next
  case (Cons e d)
  obtain k' v' where e: "e = (k', v')" by (cases e)
  show ?case
    using Cons e by (cases "k' = k") (auto simp: dict_set_keys)
qed

lemma dict_set_entries: "e \<in> set (dict_set d k v) \<Longrightarrow> e = (k, v) \<or> e \<in> set d"
proof (induction d)
  case Nil
  then show ?case by simp
next
  case (Cons e' d)
  obtain k' v' where e: "e' = (k', v')" by (cases e')
  show ?case
    using Cons e by (cases "k' = k") auto
qed

lemma dict_set_keyed:
  assumes "keyed_by_item_id rep d" and "item_id rep item = Some k"
  shows "keyed_by_item_id rep (dict_set d k item)"
proof -
  have "distinct (map fst (dict_set d k item))"
    using assms(1) by (simp add: keyed_by_item_id_def dict_set_distinct)
  moreover have "item_id rep b = Some a" if "(a, b) \<in> set (dict_set d k item)" for a b
    using dict_set_entries [OF that] assms by (auto simp: keyed_by_item_id_def)
  ultimately show ?thesis
    by (auto simp: keyed_by_item_id_def)
qed

lemma unique_by_id_keys:
  "unique_by_id rep xs d = Inr d' \<Longrightarrow>
     fst ` set d' = fst ` set d \<union> set (listing_ids rep xs) \<and>
     length (listing_ids rep xs) = length xs \<and>
     (keyed_by_item_id rep d \<longrightarrow> keyed_by_item_id rep d')"
proof (induction xs arbitrary: d)
  case Nil
  then show ?case by simp
next
  case (Cons x xs)
  from Cons.prems obtain v where v: "getitem x (Key ''id'') = Inr v"
    and r: "unique_by_id rep xs (dict_set d (py_str rep v) x) = Inr d'"
    by (auto split: sum.splits)
  have i: "item_id rep x = Some (py_str rep v)"
    using v by (simp add: item_id_def)
  from Cons.IH [OF r] i show ?case
    by (auto simp: dict_set_keys dict_set_keyed)
qed

lemma final_listings_ids:
  "final_listings rep ex xs = Inr keep \<Longrightarrow>
     filter (\<lambda>k. Some k \<notin> ex) (listing_ids rep xs) = listing_ids rep keep \<and>
     length (listing_ids rep keep) = length keep"
proof (induction xs arbitrary: keep)
  case Nil
  then show ?case by simp
next
  case (Cons x xs)
  from Cons.prems obtain v keep' where v: "getitem x (Key ''id'') = Inr v"
    and r: "final_listings rep ex xs = Inr keep'"
    and k: "keep = (if Some (py_str rep v) \<notin> ex then x # keep' else keep')"
    by (auto split: sum.splits)
  have i: "item_id rep x = Some (py_str rep v)"
    using v by (simp add: item_id_def)
  from Cons.IH [OF r] i k show ?case
    by (cases "Some (py_str rep v) \<in> ex") simp_all
qed

lemma keyed_listing_ids:
  "keyed_by_item_id rep d \<Longrightarrow> listing_ids rep (map snd d) = map fst d"
  by (induction d) (auto simp: keyed_by_item_id_def)

text \<open>The rows that the writer appends.\<close>

lemma csv_cells_dict:
  "csv_cells rep (JObj kvs) keys =
     Inr (map (\<lambda>k. csv_cell rep (case map_of kvs k of None \<Rightarrow> JStr [] | Some v \<Rightarrow> v)) keys)"
  by (induction keys) simp_all

lemma item_id_dict:
  assumes "item_id rep item = Some k"
  obtains kvs v where "item = JObj kvs" and "map_of kvs ''id'' = Some v" and "k = py_str rep v"
proof (cases item)
  case (JObj kvs)
  with assms obtain v where "map_of kvs ''id'' = Some v" "k = py_str rep v"
    by (auto simp: item_id_def split: option.splits)
  with JObj show ?thesis by (rule that)
qed (use assms in \<open>simp_all add: item_id_def\<close>)

lemma listing_ids_length_le: "length (listing_ids rep xs) \<le> length xs"
  by (induction xs) (auto split: option.splits)

lemma listing_ids_all:
  "length (listing_ids rep xs) = length xs \<Longrightarrow> x \<in> set xs \<Longrightarrow> \<exists>k. item_id rep x = Some k"
proof (induction xs)
  case Nil
  then show ?case by simp
next
  case (Cons y ys)
  show ?case
  proof (cases "item_id rep y")
    case None
    with Cons.prems(1) listing_ids_length_le [of rep ys] show ?thesis by simp
  next
    case (Some k)
    with Cons show ?thesis by auto
  qed
qed

lemma writerows_ids:
  "length (listing_ids rep data) = length data \<Longrightarrow>
     \<exists>rows. writerows rep data = Inr rows \<and> map hd rows = map (id_cell rep) data \<and>
       length rows = length data"
proof (induction data)
  case Nil
  then show ?case by simp
next
  case (Cons x xs)
  from listing_ids_all [OF Cons.prems, of x] obtain k where k: "item_id rep x = Some k"
    by auto
  then obtain kvs v where x: "x = JObj kvs" "map_of kvs ''id'' = Some v"
    by (rule item_id_dict)
  from Cons.prems k have "length (listing_ids rep xs) = length xs" by simp
  from Cons.IH [OF this] obtain rows where r: "writerows rep xs = Inr rows"
    "map hd rows = map (id_cell rep) xs" "length rows = length xs"
    by blast
  have h: "hd (map (\<lambda>k. csv_cell rep (case map_of kvs k of None \<Rightarrow> JStr [] | Some v \<Rightarrow> v))
      fields_to_request) = csv_cell rep v"
    using x(2) by (simp add: fields_to_request_def)
  from r x h show ?case
    by (simp add: csv_cells_dict id_cell_def)
qed

text \<open>The cell of a record in the \<open>id\<close> column is its identifier, unless the \<open>id\<close>
  is null.\<close>

lemma id_cell_is_id:
  assumes "item_id rep item = Some k"
  shows "id_cell rep item = (if getitem item (Key ''id'') = Inr JNull then [] else k)"
proof -
  from assms obtain kvs v where "item = JObj kvs" "map_of kvs ''id'' = Some v" "k = py_str rep v"
    by (rule item_id_dict)
  then show ?thesis
    by (cases v) (simp_all add: id_cell_def csv_cell_def)
qed

lemma save_to_csv_Nil: "save_to_csv rep [] f = Inr f"
  by (cases f) simp_all

lemma process_city_ids:
  assumes "process_city rep r f = Inr (added, f')"
    and "fetch_quintoandar_data r = Inr (Some listings)"
  shows "distinct (listing_ids rep added) \<and>
     set (listing_ids rep added) = set (listing_ids rep listings) - ids_read f \<and>
     length (listing_ids rep added) = length added \<and>
     length (listing_ids rep listings) = length listings \<and>
     save_to_csv rep added f = Inr f'"
proof (cases "listings = []")
  case True
  with assms have "added = []" "f' = f" by (simp_all add: process_city_def)
  with True show ?thesis by (simp add: save_to_csv_Nil)
next
  case False
  with assms obtain d where d: "unique_by_id rep listings [] = Inr d"
    and a: "final_listings rep (load_existing_ids f) (map snd d) = Inr added"
    and w: "save_to_csv rep added f = Inr f'"
    by (auto simp: process_city_def Let_def split: sum.splits)
  from unique_by_id_keys [OF d]
  have u: "fst ` set d = set (listing_ids rep listings)"
    "length (listing_ids rep listings) = length listings" "keyed_by_item_id rep d"
    by (simp_all add: keyed_by_item_id_def)
  note m = keyed_listing_ids [OF u(3)]
  from final_listings_ids [OF a] m
  have f: "listing_ids rep added = filter (\<lambda>k. Some k \<notin> load_existing_ids f) (map fst d)"
    "length (listing_ids rep added) = length added"
    by (simp_all add: eq_commute)
  from u(3) have "distinct (map fst d)" by (simp add: keyed_by_item_id_def)
  then have 1: "distinct (listing_ids rep added)" by (simp add: f(1))
  have 2: "set (listing_ids rep added) = set (listing_ids rep listings) - ids_read f"
    using u(1) by (auto simp: f(1) ids_read_def in_these_eq)
  from 1 2 f(2) u(2) w show ?thesis by blast
qed

text \<open>What a call of \<^verbatim>\<open>save_to_csv\<close> that returns leaves in the file.\<close>

lemma save_to_csv_file:
  assumes "save_to_csv rep data f = Inr f'" and "writerows rep data = Inr rows"
  shows "f' = (case f of
           NoFile \<Rightarrow> if data = [] then NoFile else CsvFile (fields_to_request # rows)
         | CsvFile old_rows \<Rightarrow> CsvFile (old_rows @ rows)
         | UnreadableFile \<Rightarrow> UnreadableFile
         | WriteProtected g \<Rightarrow> WriteProtected g)"
  using assms by (cases f; cases "data = []") (auto split: if_splits)

section \<open>Site A: a run over full pages\<close>

lemma pages_from_0: "pages_from p 0 = []"
  by (simp add: pages_from_def)

lemma pages_from_Suc: "pages_from p (Suc k) = pages_from p k @ [p + int k]"
  by (simp add: pages_from_def)

lemma pages_from_Cons: "pages_from p (Suc k) = p # pages_from (p + 1) k"
proof (induction k)
  case 0
  then show ?case by (simp add: pages_from_def)
next
  case (Suc k)
  have "pages_from p (Suc (Suc k)) = pages_from p (Suc k) @ [p + int (Suc k)]"
    by (rule pages_from_Suc)
  also have "\<dots> = p # pages_from (p + 1) k @ [p + 1 + int k]"
    using Suc by simp
  also have "\<dots> = p # pages_from (p + 1) (Suc k)"
    by (simp add: pages_from_Suc)
  finally show ?case .
qed

lemma record_listings_all_dict:
  "list_all is_dict xs \<Longrightarrow> snd (snd (record_listings rep seen xs sess n)) = None"
proof (induction xs arbitrary: sess n)
  case Nil
  then show ?case by simp
next
  case (Cons x xs)
  then obtain kvs where "x = JObj kvs" by (cases x) auto
  with Cons show ?case by (simp add: Let_def)
qed

lemma dict_set_idem: "dict_set (dict_set kvs k v) k v' = dict_set kvs k v'"
  by (induction kvs) auto

lemma save_succeeds_dict_set:
  "save_succeeds store (JObj (dict_set kvs ''last_page'' v)) q = save_succeeds store (JObj kvs) q"
  by (simp add: save_succeeds_def dict_set_idem)

lemma scrape_page_full:
  assumes "full_page (api p)" and "state sc = JObj kvs" and "save_succeeds store (JObj kvs) p"
  shows "fst (scrape_page rep store api sc p)"
  using assms by (simp add: scrape_page_True_iff)

lemma scrape_loop_step:
  assumes "full_page (api p)" and "state sc = JObj kvs" and "save_succeeds store (JObj kvs) p"
    and "time_sleep delay = Inr ()" and "\<not> cap_reached max_pages n"
  shows "scrape_loop rep store api delay max_pages sc p n =
           scrape_loop rep store api delay max_pages (snd (scrape_page rep store api sc p)) (p + 1) (n + 1)"
proof -
  have "fst (scrape_page rep store api sc p)"
    using assms(1,2,3) by (rule scrape_page_full)
  then show ?thesis
    using assms(4,5) by (subst scrape_loop.simps) simp
qed

lemma scrape_loop_full_pages:
  assumes "\<forall>i<k. full_page (api (p + int i))" and "state sc = JObj kvs"
    and "\<forall>i<k. save_succeeds store (JObj kvs) (p + int i)"
    and "time_sleep delay = Inr ()"
    and "\<forall>i<k. \<not> cap_reached max_pages (n + i)"
  shows "\<exists>sc'. after_pages sc p k sc' \<and>
           scrape_loop rep store api delay max_pages sc p n =
             scrape_loop rep store api delay max_pages sc' (p + int k) (n + k)"
  using assms
proof (induction k arbitrary: sc p n kvs)
  case 0
  then show ?case by (auto simp: after_pages_def pages_from_0)
next
  case (Suc k)
  let ?sc1 = "snd (scrape_page rep store api sc p)"
  have fp: "full_page (api p)" using Suc.prems(1) by force
  have sv: "save_succeeds store (JObj kvs) p" using Suc.prems(3) by force
  have nc: "\<not> cap_reached max_pages n" using Suc.prems(5) by force
  have t: "fst (scrape_page rep store api sc p)"
    using fp Suc.prems(2) sv by (rule scrape_page_full)
  from scrape_page_True_saved [OF t] Suc.prems(2)
  have s1: "state ?sc1 = JObj (dict_set kvs ''last_page'' (JInt p))"
    "state_file_contents ?sc1 = Stored (JObj (dict_set kvs ''last_page'' (JInt p)))"
    by auto
  have r1: "requested ?sc1 = requested sc @ [p]" by (rule scrape_page_requested)
  have step: "scrape_loop rep store api delay max_pages sc p n =
      scrape_loop rep store api delay max_pages ?sc1 (p + 1) (n + 1)"
    using fp Suc.prems(2) sv Suc.prems(4) nc by (rule scrape_loop_step)
  have a: "\<forall>i<k. full_page (api (p + 1 + int i))"
  proof (intro allI impI)
    fix i assume "i < k"
    then have "full_page (api (p + int (Suc i)))" using Suc.prems(1) by blast
    moreover have "p + int (Suc i) = p + 1 + int i" by simp
    ultimately show "full_page (api (p + 1 + int i))" by (simp only:)
  qed
  have w: "\<forall>i<k. save_succeeds store (JObj (dict_set kvs ''last_page'' (JInt p))) (p + 1 + int i)"
  proof (intro allI impI)
    fix i assume "i < k"
    then have "save_succeeds store (JObj kvs) (p + int (Suc i))" using Suc.prems(3) by blast
    moreover have "p + int (Suc i) = p + 1 + int i" by simp
    ultimately show "save_succeeds store (JObj (dict_set kvs ''last_page'' (JInt p))) (p + 1 + int i)"
      by (simp only: save_succeeds_dict_set)
  qed
  have b: "\<forall>i<k. \<not> cap_reached max_pages (n + 1 + i)"
  proof (intro allI impI)
    fix i assume "i < k"
    then have "\<not> cap_reached max_pages (n + Suc i)" using Suc.prems(5) by blast
    then show "\<not> cap_reached max_pages (n + 1 + i)" by simp
  qed
  from Suc.IH [OF a s1(1) w Suc.prems(4) b] obtain sc' where
    ap: "after_pages ?sc1 (p + 1) k sc'"
    and l: "scrape_loop rep store api delay max_pages ?sc1 (p + 1) (n + 1) =
      scrape_loop rep store api delay max_pages sc' (p + 1 + int k) (n + 1 + k)"
    by blast
  have "after_pages sc p (Suc k) sc'"
  proof (cases k)
    case 0
    with ap have "sc' = ?sc1" by (simp add: after_pages_def)
    with s1 r1 0 show ?thesis
      by (simp add: after_pages_def pages_from_def map_of_dict_set)
  next
    case (Suc j)
    with ap r1 show ?thesis
      by (auto simp: after_pages_def pages_from_Cons)
  qed
  moreover have "scrape_loop rep store api delay max_pages sc p n =
      scrape_loop rep store api delay max_pages sc' (p + int (Suc k)) (n + Suc k)"
  proof -
    have "p + 1 + int k = p + int (Suc k)" "n + 1 + k = n + Suc k" by simp_all
    with step l show ?thesis by (simp only:)
  qed
  ultimately show ?case by blast
qed

section \<open>How a run starts and ends, and how the entry points exit\<close>

lemma scrape_loop_cap:
  "cap_reached max_pages n \<Longrightarrow> scrape_loop rep store api delay max_pages sc p n = Some (None, sc)"
  by (subst scrape_loop.simps) simp

lemma scrape_loop_sleep_raises:
  assumes "\<not> cap_reached max_pages n" and "fst (scrape_page rep store api sc p)"
    and "time_sleep delay = Inl e"
  shows "scrape_loop rep store api delay max_pages sc p n =
           Some (Some e, snd (scrape_page rep store api sc p))"
  using assms by (subst scrape_loop.simps) simp

lemma scrape_loop_next:
  assumes "\<not> cap_reached max_pages n" and "fst (scrape_page rep store api sc p)" and "time_sleep delay = Inr ()"
  shows "scrape_loop rep store api delay max_pages sc p n =
           scrape_loop rep store api delay max_pages (snd (scrape_page rep store api sc p)) (p + 1) (n + 1)"
  using assms by (subst scrape_loop.simps) simp

text \<open>
  C10, as the code has it.  Whatever exception is in flight when the pagination loop is
  left, \<^verbatim>\<open>scrape\<close> returns the accumulator collected so far.  It raises exactly when the
  computation of the first page, which precedes the \<^verbatim>\<open>try\<close>, raises.
\<close>

theorem scrape_raises_only_before_the_loop:
  "(scrape rep store api sc start_page delay max_pages = Some (Inl e) \<longleftrightarrow>
      first_page start_page (state sc) = Inl e) \<and>
   (first_page start_page (state sc) = Inr p \<longrightarrow>
    scrape_loop rep store api delay max_pages sc p 0 = Some (in_flight, sc') \<longrightarrow>
      scrape rep store api sc start_page delay max_pages =
        Some (Inr (new_listings_this_session sc', sc')))"
  by (auto simp: scrape_def split: sum.splits option.splits)

text \<open>
  C10 as stated fails: with a state file that holds a JSON list and no start override,
  \<^verbatim>\<open>self.state.get\<close> raises \<^verbatim>\<open>AttributeError\<close> before the \<^verbatim>\<open>try\<close>, and
  \<^verbatim>\<open>scrape\<close> propagates it.
\<close>

theorem scrape_raises_on_malformed_state:
  "init_scraper {} (Stored (JList [])) NoCookies =
     Inr (fresh_scraper {} (JList []) (Stored (JList []))) \<and>
   scrape ex_rep all_written empty_api (fresh_scraper {} (JList []) (Stored (JList [])))
       None (Seconds 0) None =
     Some (Inl AttributeError)"
  by (simp add: scrape_def first_page_def init_scraper_def fresh_scraper_def load_state_def
      load_cookies_def)

text \<open>
  Every other override is the first page, whatever the state.
\<close>

lemma nonzero_start_page_overrides_state:
  "s \<noteq> 0 \<Longrightarrow> first_page (Some s) st = Inr s"
  by (simp add: first_page_def)

lemma empty_api_page_fails: "\<not> fst (scrape_page rep store empty_api sc p)"
  by (simp add: scrape_page_def empty_api_def Let_def)

text \<open>
  C3.  \<^verbatim>\<open>start_page or ...\<close> treats the override \<open>0\<close> as absent: with
  \<^verbatim>\<open>--start 0\<close> and a persisted \<open>last_page = 5\<close> the first (and only) page requested
  is 6, so the persisted state is not ignored.
\<close>

theorem start_page_zero_is_ignored:
  "init_scraper {} (Stored (JObj [(''last_page'', JInt 5)])) NoCookies =
     Inr (fresh_scraper {} (JObj [(''last_page'', JInt 5)])
            (Stored (JObj [(''last_page'', JInt 5)]))) \<and>
   first_page (Some 0) (JObj [(''last_page'', JInt 5)]) = Inr 6 \<and>
   pages_requested
     (scrape ex_rep all_written empty_api
        (fresh_scraper {} (JObj [(''last_page'', JInt 5)])
           (Stored (JObj [(''last_page'', JInt 5)])))
        (Some 0) (Seconds 5) None) = Some [6]"
proof -
  let ?sc = "fresh_scraper {} (JObj [(''last_page'', JInt 5)])
      (Stored (JObj [(''last_page'', JInt 5)]))"
  have i: "init_scraper {} (Stored (JObj [(''last_page'', JInt 5)])) NoCookies = Inr ?sc"
    by (simp add: init_scraper_def load_state_def load_cookies_def)
  have f: "first_page (Some 0) (JObj [(''last_page'', JInt 5)]) = Inr 6"
    by (simp add: first_page_def)
  have l: "scrape_loop ex_rep all_written empty_api (Seconds 5) None ?sc 6 0 =
      Some (None, snd (scrape_page ex_rep all_written empty_api ?sc 6))"
    by (rule scrape_loop_stop) (simp_all add: cap_reached_def empty_api_page_fails)
  have r: "requested (snd (scrape_page ex_rep all_written empty_api ?sc 6)) = [6]"
    by (simp add: scrape_page_requested fresh_scraper_def)
  have "pages_requested (scrape ex_rep all_written empty_api ?sc (Some 0) (Seconds 5) None) =
      Some [6]"
    using f l r by (simp add: scrape_def pages_requested_def fresh_scraper_def)
  with i f show ?thesis by simp
qed

text \<open>
  C5.  Flattening is not total: a record whose \<open>publisher\<close> is null raises
  \<^verbatim>\<open>AttributeError\<close> in the dictionary display, which no \<^verbatim>\<open>try\<close> covers.
\<close>

theorem flatten_raises_on_null_publisher:
  "flatten lower ts (JObj [(''postingId'', JInt 1), (''publisher'', JNull)]) =
     Inl AttributeError"
  by (simp add: flatten_def and_then_def price_block_def expenses_block_def features_block_def
      location_block_def url_block_def except_pass_def py_or_def Let_def)

text \<open>
  C7.  With a valid command line, site B exits with status 1 when the decoded response
  holds a record without \<open>id\<close>: the \<^verbatim>\<open>KeyError\<close> of \<^verbatim>\<open>item['id']\<close> is caught
  nowhere.  With the same command line and an API that cannot be reached the exit status
  is 0.
\<close>

theorem quintoandar_exits_1_on_record_without_id:
  "quintoandar_main ex_rep ex_py_int no_id_api ex_argv no_files = 1 \<and>
   quintoandar_main ex_rep ex_py_int unreachable_api ex_argv no_files = 0"
  by (simp add: quintoandar_main_def ex_py_int_def ex_argv_def process_city_def
      fetch_quintoandar_data_def no_id_api_def unreachable_api_def no_files_def
      load_existing_ids.simps BASE_PAGE_SIZE_def Let_def)

lemma request_failures_are_not_fatal:
  assumes "r = PostRaises \<or> (\<exists>s b. r = Resp s b \<and> 400 \<le> s \<and> s < 600) \<or> (\<exists>s. r = Resp s BadJson)"
  shows "process_city rep r f = Inr ([], f)"
  using assms by (auto simp: process_city_def fetch_quintoandar_data_def)

lemma unreadable_file_is_not_fatal:
  "load_existing_ids UnreadableFile = {}"
  by (simp add: load_existing_ids.simps)

lemma imovelweb_exit_status:
  "imovelweb_main None worker = Some 2"
  "imovelweb_main (Some a) worker = Some 0 \<or> imovelweb_main (Some a) worker = None"
  by (simp_all add: imovelweb_main_def Let_def)

lemma imovelweb_unknown_city_skipped:
  "map_of CITY_CODES slug = None \<Longrightarrow> start_threads worker (slug # rest) = start_threads worker rest"
  by simp

section \<open>Site A: records without an identifier\<close>

lemma id_less_key: "id_less item \<Longrightarrow> posting_key rep item = Some ''None''"
  by (simp add: id_less_def posting_key_def)

lemma keyed_by_id_tail: "keyed_by_id rep (e # sess) \<Longrightarrow> keyed_by_id rep sess"
  by (simp add: keyed_by_id_def)

lemma keyed_by_id_head: "keyed_by_id rep ((k, item) # sess) \<Longrightarrow> posting_key rep item = Some k"
  by (simp add: keyed_by_id_def)

lemma id_less_under_None:
  "keyed_by_id rep sess \<Longrightarrow>
     length (filter id_less (map snd sess)) \<le> length (filter (\<lambda>k. k = ''None'') (map fst sess))"
proof (induction sess)
  case Nil
  then show ?case by simp
next
  case (Cons e sess)
  obtain k item where e: "e = (k, item)" by (cases e)
  from Cons.prems e have h: "posting_key rep item = Some k"
    by (simp add: keyed_by_id_head)
  from Cons.prems have t: "keyed_by_id rep sess" by (rule keyed_by_id_tail)
  show ?case
  proof (cases "id_less item")
    case True
    with h have "k = ''None''" by (simp add: id_less_key)
    with Cons.IH [OF t] e True show ?thesis by simp
  next
    case False
    with Cons.IH [OF t] e show ?thesis by simp
  qed
qed

lemma distinct_count_le_1: "distinct ks \<Longrightarrow> length (filter (\<lambda>k. k = a) ks) \<le> 1"
proof (induction ks)
  case Nil
  then show ?case by simp
next
  case (Cons k ks)
  show ?case
  proof (cases "k = a")
    case True
    with Cons.prems have "filter (\<lambda>k. k = a) ks = []"
      by (auto simp: filter_empty_conv)
    with True show ?thesis by simp
  next
    case False
    with Cons show ?thesis by simp
  qed
qed

lemma keyed_one_id_less:
  assumes "keyed_by_id rep sess"
  shows "length (filter id_less (map snd sess)) \<le> 1"
proof -
  from assms have "distinct (map fst sess)" by (simp add: keyed_by_id_def)
  from distinct_count_le_1 [OF this, of "''None''"] id_less_under_None [OF assms]
  show ?thesis by simp
qed

lemma keyed_no_id_less:
  assumes "keyed_by_id rep sess" and "''None'' \<notin> fst ` set sess"
  shows "filter id_less (map snd sess) = []"
proof -
  from assms(2) have e: "filter (\<lambda>k. k = ''None'') (map fst sess) = []"
    by (force simp: filter_empty_conv)
  have "length (filter id_less (map snd sess)) \<le>
      length (filter (\<lambda>k. k = ''None'') (map fst sess))"
    using assms(1) by (rule id_less_under_None)
  also have "\<dots> = 0"
    by (simp only: e list.size)
  finally show ?thesis
    by (simp only: le_zero_eq length_0_conv)
qed

text \<open>
  C9, as the code has it.  A record without identifier is filed under the key
  \<open>''None''\<close> exactly when that key is neither in the seen set nor in the accumulator
  already, and is skipped otherwise; so the accumulator that \<^verbatim>\<open>scrape\<close> returns holds at
  most one such record, and none when \<open>''None''\<close> is in the seen set.  The flat row of
  such a record carries \<open>postingId = None\<close>, the null value, not a string.
\<close>

theorem id_less_record_is_kept_once_under_None:
  "(id_less item \<longrightarrow>
      record_listings rep seen (item # rest) sess n =
        (if ''None'' \<notin> seen \<and> ''None'' \<notin> fst ` set sess
         then record_listings rep seen rest (sess @ [(''None'', item)]) (n + 1)
         else record_listings rep seen rest sess n)) \<and>
   (scrape rep store api (fresh_scraper S st f) start_page delay max_pages = Some (Inr (sess', sc')) \<longrightarrow>
      length (filter id_less (map snd sess')) \<le> 1 \<and>
      (''None'' \<in> S \<longrightarrow> filter id_less (map snd sess') = [])) \<and>
   (id_less item \<longrightarrow> flatten lower ts item = Inr row \<longrightarrow> postingId row = JNull)"
proof (intro conjI impI)
  assume "id_less item"
  then show "record_listings rep seen (item # rest) sess n =
        (if ''None'' \<notin> seen \<and> ''None'' \<notin> fst ` set sess
         then record_listings rep seen rest (sess @ [(''None'', item)]) (n + 1)
         else record_listings rep seen rest sess n)"
    by (simp add: id_less_def Let_def)
next
  assume s: "scrape rep store api (fresh_scraper S st f) start_page delay max_pages = Some (Inr (sess', sc'))"
  note k = scrape_session [OF s]
  from k(1) show "length (filter id_less (map snd sess')) \<le> 1"
    by (rule keyed_one_id_less)
  assume "''None'' \<in> S"
  with k(2) have "''None'' \<notin> fst ` set sess'" by blast
  with k(1) show "filter id_less (map snd sess') = []"
    by (rule keyed_no_id_less)
next
  assume "id_less item" and "flatten lower ts item = Inr row"
  with flatten_postingId [of lower ts item row] show "postingId row = JNull"
    by (simp add: id_less_def)
qed

lemma empty_page_not_nonempty: "empty_page r \<Longrightarrow> \<not> nonempty_page r"
  by (simp add: empty_page_def nonempty_page_def split: option.splits)

lemma cap_allows_below:
  assumes "cap_allows max_pages N" and "i < N"
  shows "\<not> cap_reached max_pages i"
  using assms by (auto simp: cap_allows_def cap_reached_def split: option.splits)

lemma cap_allows_at:
  assumes "cap_allows max_pages N" and "max_pages \<noteq> Some (int N)"
  shows "\<not> cap_reached max_pages N"
  using assms by (auto simp: cap_allows_def cap_reached_def split: option.splits)

lemma empty_page_not_full: "empty_page r \<Longrightarrow> \<not> full_page r"
  using empty_page_not_nonempty full_page_nonempty by blast

lemma scrape_loop_pages_then_empty:
  assumes "1 \<le> N" and "\<forall>i<N. full_page (api (p + int i))" and "empty_page (api (p + int N))"
    and "state sc = JObj kvs" and "\<forall>i<N. save_succeeds store (JObj kvs) (p + int i)"
    and "time_sleep delay = Inr ()" and "cap_allows max_pages N"
  shows "\<exists>sc'. scrape_loop rep store api delay max_pages sc p 0 = Some (None, sc') \<and>
     (\<exists>kvs'. state_file_contents sc' = Stored (JObj kvs') \<and>
        map_of kvs' ''last_page'' = Some (JInt (p + int N - 1))) \<and>
     requested sc' =
       requested sc @ pages_from p (if max_pages = Some (int N) then N else Suc N)"
proof -
  have nc: "\<forall>i<N. \<not> cap_reached max_pages (0 + i)"
    using assms(7) by (simp add: cap_allows_below)
  from scrape_loop_full_pages [OF assms(2,4,5,6) nc, of rep] obtain scN where
    ap: "after_pages sc p N scN"
    and l: "scrape_loop rep store api delay max_pages sc p 0 =
      scrape_loop rep store api delay max_pages scN (p + int N) (0 + N)"
    by blast
  from ap assms(1) obtain kvs' where
    rq: "requested scN = requested sc @ pages_from p N"
    and st: "state_file_contents scN = Stored (JObj kvs')"
      "map_of kvs' ''last_page'' = Some (JInt (p + int N - 1))"
    by (auto simp: after_pages_def)
  show ?thesis
  proof (cases "max_pages = Some (int N)")
    case True
    with assms(1) have "cap_reached max_pages N" by (simp add: cap_reached_def)
    then have "scrape_loop rep store api delay max_pages scN (p + int N) N = Some (None, scN)"
      by (rule scrape_loop_cap)
    with l rq st True show ?thesis by auto
  next
    case False
    with assms(7) have c: "\<not> cap_reached max_pages N" by (rule cap_allows_at)
    let ?sc' = "snd (scrape_page rep store api scN (p + int N))"
    note ne = empty_page_not_full [OF assms(3)]
    have nf: "\<not> fst (scrape_page rep store api scN (p + int N))"
      using scrape_page_not_full(1) [of api "p + int N" rep store scN] ne by simp
    from scrape_loop_stop [OF c nf]
    have e: "scrape_loop rep store api delay max_pages scN (p + int N) N = Some (None, ?sc')" .
    have s': "state_file_contents ?sc' = Stored (JObj kvs')"
      using scrape_page_not_full(2) [of api "p + int N" rep store scN] ne st(1) by simp
    have r': "requested ?sc' = requested sc @ pages_from p (Suc N)"
      using rq by (simp add: scrape_page_requested pages_from_Suc)
    from l e s' st(2) r' False show ?thesis by auto
  qed
qed

text \<open>
  C2, as the code has it.  Let the driver start at page \<open>p\<close>, and let the API return
  \<open>N \<ge> 1\<close> full pages (non-empty lists of records) from \<open>p\<close> on and then an empty
  page.  If the page cap is not below \<open>N\<close>, the loaded state is a dictionary, every
  rewrite of the state file completes and \<^verbatim>\<open>time.sleep\<close> accepts the delay, then
  \<^verbatim>\<open>scrape\<close> returns its accumulator without an exception, the state file holds
  \<open>last_page = p + N - 1\<close>, the last full page, and the pages requested are exactly
  \<open>p, \<dots>, p + N\<close> (without the empty page \<open>p + N\<close> when the cap equals \<open>N\<close>):
  no further page is requested.
\<close>

theorem full_pages_then_empty_page_persist_last_full_page:
  assumes "1 \<le> N" and "first_page start_page (state sc) = Inr p"
    and "\<forall>i<N. full_page (api (p + int i))" and "empty_page (api (p + int N))"
    and "cap_allows max_pages N"
    and "state sc = JObj kvs" and "\<forall>i<N. save_succeeds store (JObj kvs) (p + int i)"
    and "time_sleep delay = Inr ()"
  shows "\<exists>sc'. scrape rep store api sc start_page delay max_pages =
        Some (Inr (new_listings_this_session sc', sc')) \<and>
     (\<exists>kvs'. state_file_contents sc' = Stored (JObj kvs') \<and>
        map_of kvs' ''last_page'' = Some (JInt (p + int N - 1))) \<and>
     requested sc' =
       requested sc @ pages_from p (if max_pages = Some (int N) then N else Suc N)"
proof -
  from scrape_loop_pages_then_empty [OF assms(1,3,4,6,7,8,5), of rep] obtain sc' where
    l: "scrape_loop rep store api delay max_pages sc p 0 = Some (None, sc')"
    and r: "\<exists>kvs'. state_file_contents sc' = Stored (JObj kvs') \<and>
        map_of kvs' ''last_page'' = Some (JInt (p + int N - 1))"
      "requested sc' =
       requested sc @ pages_from p (if max_pages = Some (int N) then N else Suc N)"
    by blast
  from assms(2) l have "scrape rep store api sc start_page delay max_pages =
      Some (Inr (new_listings_this_session sc', sc'))"
    by (simp add: scrape_def)
  with r show ?thesis by blast
qed

section \<open>Worked examples\<close>

lemma full_one_page:
  assumes "records \<noteq> []" and "list_all is_dict records"
  shows "full_page (one_page_api records 1)"
  using assms by (simp add: full_page_def listing_array_def one_page_api_def)

lemma one_page_rest_fails: "p \<noteq> 1 \<Longrightarrow> \<not> fst (scrape_page rep store (one_page_api records) sc p)"
  by (simp add: scrape_page_def one_page_api_def empty_api_def Let_def)

lemma one_page_rest_session:
  "p \<noteq> 1 \<Longrightarrow> new_listings_this_session (snd (scrape_page rep store (one_page_api records) sc p)) =
     new_listings_this_session sc"
  by (simp add: scrape_page_def one_page_api_def empty_api_def Let_def)

lemma save_state_session:
  "new_listings_this_session (snd (save_state store sc page)) = new_listings_this_session sc"
  by (simp add: save_state_def Let_def split: json.splits write_outcome.splits)

lemma one_page_first_session:
  assumes "records \<noteq> []"
  shows "new_listings_this_session (snd (scrape_page rep store (one_page_api records) sc 1)) =
     fst (record_listings rep (seen_posting_ids sc) records (new_listings_this_session sc) 0)"
proof -
  have l: "listing_array (one_page_api records 1) = Some (JList records)"
    by (simp add: listing_array_def one_page_api_def)
  from scrape_page_session_cases [of "one_page_api records" 1 rep store sc] l assms
  show ?thesis by auto
qed

lemma run_one_page_session:
  assumes "records \<noteq> []"
  shows "new_listings_this_session (run_one_page rep records S) =
     fst (record_listings rep S records [] 0)"
  using one_page_first_session [OF assms, of rep all_written "new_scraper S"]
  by (simp add: run_one_page_def one_page_rest_session new_scraper_def fresh_scraper_def)

lemma run_one_page_requested: "requested (run_one_page rep records S) = [1, 2]"
  by (simp add: run_one_page_def scrape_page_requested new_scraper_def fresh_scraper_def)

lemma init_new_scraper: "init_scraper S Absent NoCookies = Inr (new_scraper S)"
  by (simp add: init_scraper_def load_state_def load_cookies_def new_scraper_def)

lemma init_state: "state (new_scraper S) = JObj [(''last_page'', JInt 0)]"
  by (simp add: new_scraper_def fresh_scraper_def)

lemma all_written_succeeds: "save_succeeds all_written (JObj kvs) q"
  by (simp add: save_succeeds_def all_written_def)

lemma sleep_0: "time_sleep (Seconds 0) = Inr ()"
  by (simp add: time_sleep_def)

lemma scrape_one_page:
  assumes "records \<noteq> []" and "list_all is_dict records" and "time_sleep delay = Inr ()"
  shows "scrape rep all_written (one_page_api records) (new_scraper S) None delay None =
     Some (Inr (new_listings_this_session (run_one_page rep records S),
                run_one_page rep records S))"
proof -
  let ?api = "one_page_api records"
  let ?sc = "new_scraper S"
  let ?sc1 = "snd (scrape_page rep all_written ?api ?sc 1)"
  have f: "first_page None (state ?sc) = Inr 1"
    by (simp add: first_page_def init_state)
  have c: "\<not> cap_reached None 0" "\<not> cap_reached None (0 + 1)"
    by (simp_all add: cap_reached_def)
  have t: "fst (scrape_page rep all_written ?api ?sc 1)"
    using full_one_page [OF assms(1,2)] init_state all_written_succeeds
    by (rule scrape_page_full)
  have "scrape_loop rep all_written ?api delay None ?sc 1 0 =
      scrape_loop rep all_written ?api delay None ?sc1 (1 + 1) (0 + 1)"
    using c(1) t assms(3) by (rule scrape_loop_next)
  also have "\<dots> = Some (None, snd (scrape_page rep all_written ?api ?sc1 (1 + 1)))"
    using c(2) by (rule scrape_loop_stop) (simp add: one_page_rest_fails)
  finally have "scrape_loop rep all_written ?api delay None ?sc 1 0 =
      Some (None, run_one_page rep records S)"
    by (simp add: run_one_page_def)
  with f show ?thesis by (simp add: scrape_def)
qed

lemma task_one_page:
  assumes "records \<noteq> []" and "list_all is_dict records" and "time_sleep delay = Inr ()"
  shows "scrape_city_task rep all_written lower ts (one_page_api records) dir Absent NoCookies
       slug None delay None =
     (if fst (record_listings rep (load_seen_ids_from_city_csvs dir slug) records [] 0) \<noteq> []
      then (case save_new_listings_to_city_csv lower ts
                   (map snd (fst (record_listings rep
                      (load_seen_ids_from_city_csvs dir slug) records [] 0))) of
              Inl e \<Rightarrow> Some (Inl e)
            | Inr written \<Rightarrow>
                Some (Inr (written,
                  run_one_page rep records (load_seen_ids_from_city_csvs dir slug))))
      else Some (Inr (None, run_one_page rep records (load_seen_ids_from_city_csvs dir slug))))"
  unfolding scrape_city_task_def Let_def
  by (simp add: init_new_scraper scrape_one_page [OF assms] run_one_page_session [OF assms(1)])

lemmas flatten_eval = flatten_def and_then_def price_block_def expenses_block_def
  features_block_def location_block_def url_block_def except_pass_def py_or_def Let_def

lemma flatten_title_only:
  "flatten lower ts (JObj [(''title'', JStr t)]) = Inr (blank_row JNull (JStr t) ts)"
  by (simp add: flatten_eval blank_row_def)

lemma flatten_id_only:
  "flatten lower ts (JObj [(''postingId'', v)]) = Inr (blank_row v JNull ts)"
  by (simp add: flatten_eval blank_row_def)

lemma no_directory: "load_seen_ids_from_city_csvs None slug = {}"
  by (simp add: load_seen_ids_from_city_csvs_def)

text \<open>When every item fetched is a record, the loop processes all of them.\<close>

lemma processed_records_only: "records_only r \<Longrightarrow> processed_records r = page_records r"
  by (auto simp: records_only_def processed_records_def page_records_def
      split: option.splits json.splits intro: takeWhile_eq_all_conv [THEN iffD2]
      simp: list_all_iff)

lemma processed_ids_fetched:
  "\<forall>q \<in> set pages. records_only (api q) \<Longrightarrow>
     processed_ids rep api pages = fetched_ids rep api pages"
  by (simp add: processed_ids_def fetched_ids_def processed_records_only)

text \<open>
  C1, as the code has it.  Site A: when the worker of a city returns, and every item of
  every listing array fetched on the requested pages is a record, the rows it writes carry
  pairwise distinct identifiers, which are exactly the non-empty identifiers fetched that
  are not in the seen set loaded from the prior output files (the guard
  \<^verbatim>\<open>if posting_id\<close> drops the empty identifier); no file is written when there is none.
  Site B: when a city is processed without an exception, every fetched record has an
  identifier, the listings appended have pairwise distinct identifiers, which are exactly
  the fetched identifiers that the loader did not read from the existing file, and the
  file afterwards holds its earlier rows followed by one row per appended listing (after a
  header row when there was no file); the \<open>id\<close> cell of such a row is the identifier,
  except that a null \<open>id\<close>, whose identifier is \<open>''None''\<close>, gives an empty cell.
  In both cases no identifier that the loader read from a prior output file is written
  again.
\<close>

theorem new_ids_are_fetched_ids_not_seen_before:
  "(scrape_city_task rep store lower ts api dir sf cf slug start_page delay max_pages =
       Some (Inr (written, sc')) \<longrightarrow>
    (\<forall>q \<in> set (requested sc'). records_only (api q)) \<longrightarrow>
      (case written of
         None \<Rightarrow> fetched_ids rep api (requested sc') - {[]}
                   - load_seen_ids_from_city_csvs dir slug = {}
       | Some rows \<Rightarrow>
           distinct (map (row_id rep) rows) \<and>
           set (map (row_id rep) rows) =
             fetched_ids rep api (requested sc') - {[]}
               - load_seen_ids_from_city_csvs dir slug)) \<and>
   (process_city rep r f = Inr (added, f') \<longrightarrow>
    fetch_quintoandar_data r = Inr (Some listings) \<longrightarrow>
      length (listing_ids rep listings) = length listings \<and>
      length (listing_ids rep added) = length added \<and>
      distinct (listing_ids rep added) \<and>
      set (listing_ids rep added) = set (listing_ids rep listings) - ids_read f \<and>
      (\<exists>rows. writerows rep added = Inr rows \<and>
         map hd rows = map (id_cell rep) added \<and>
         f' = (case f of
                 NoFile \<Rightarrow> if added = [] then NoFile else CsvFile (fields_to_request # rows)
               | CsvFile old_rows \<Rightarrow> CsvFile (old_rows @ rows)
               | UnreadableFile \<Rightarrow> UnreadableFile
               | WriteProtected g \<Rightarrow> WriteProtected g)) \<and>
      (\<forall>item \<in> set added. \<forall>k. item_id rep item = Some k \<longrightarrow>
         id_cell rep item = (if getitem item (Key ''id'') = Inr JNull then [] else k)))"
proof (intro conjI impI)
  assume t: "scrape_city_task rep store lower ts api dir sf cf slug start_page delay max_pages =
       Some (Inr (written, sc'))"
    and r: "\<forall>q \<in> set (requested sc'). records_only (api q)"
  from task_written_ids [OF t]
  show "case written of
         None \<Rightarrow> fetched_ids rep api (requested sc') - {[]}
                   - load_seen_ids_from_city_csvs dir slug = {}
       | Some rows \<Rightarrow>
           distinct (map (row_id rep) rows) \<and>
           set (map (row_id rep) rows) =
             fetched_ids rep api (requested sc') - {[]}
               - load_seen_ids_from_city_csvs dir slug"
    unfolding processed_ids_fetched [OF r, of rep] .
next
  assume a: "process_city rep r f = Inr (added, f')"
    "fetch_quintoandar_data r = Inr (Some listings)"
  note p = process_city_ids [OF a]
  from p show "length (listing_ids rep listings) = length listings" by simp
  from p show l: "length (listing_ids rep added) = length added" by simp
  from p show "distinct (listing_ids rep added)" by simp
  from p show "set (listing_ids rep added) = set (listing_ids rep listings) - ids_read f"
    by simp
  from p have s: "save_to_csv rep added f = Inr f'" by simp
  from writerows_ids [OF l] obtain rows where w: "writerows rep added = Inr rows"
    "map hd rows = map (id_cell rep) added"
    by blast
  from save_to_csv_file [OF s w(1)] w
  show "\<exists>rows. writerows rep added = Inr rows \<and>
         map hd rows = map (id_cell rep) added \<and>
         f' = (case f of
                 NoFile \<Rightarrow> if added = [] then NoFile else CsvFile (fields_to_request # rows)
               | CsvFile old_rows \<Rightarrow> CsvFile (old_rows @ rows)
               | UnreadableFile \<Rightarrow> UnreadableFile
               | WriteProtected g \<Rightarrow> WriteProtected g)"
    by blast
  show "\<forall>item \<in> set added. \<forall>k. item_id rep item = Some k \<longrightarrow>
         id_cell rep item = (if getitem item (Key ''id'') = Inr JNull then [] else k)"
    using id_cell_is_id by blast
qed

lemma ex_directory_seen: "load_seen_ids_from_city_csvs ex_directory ''itanhaem-sp'' = {''a1''}"
  by (auto simp: load_seen_ids_from_city_csvs_def ex_directory_def ends_with_def)

lemma task_blank_id:
  "scrape_city_task ex_rep all_written ex_lower ''2024'' (one_page_api blank_id_records) None
       Absent NoCookies ''itanhaem-sp'' None (Seconds 0) None =
     Some (Inr (None, run_one_page ex_rep blank_id_records {}))"
proof -
  have r: "blank_id_records \<noteq> []" "list_all is_dict blank_id_records"
    by (simp_all add: blank_id_records_def)
  have s: "fst (record_listings ex_rep {} blank_id_records [] 0) = []"
    by (simp add: blank_id_records_def)
  show ?thesis
    by (simp add: task_one_page [OF r sleep_0] no_directory s)
qed

lemma fetched_blank_id: "fetched_ids ex_rep (one_page_api blank_id_records) [1, 2] = {[]}"
  by (simp add: fetched_ids_def page_records_def listing_array_def one_page_api_def
      empty_api_def blank_id_records_def posting_key_def)

lemma task_mixed:
  "scrape_city_task ex_rep all_written ex_lower ''2024'' (one_page_api mixed_records) None
       Absent NoCookies ''itanhaem-sp'' None (Seconds 0) None =
     Some (Inr (Some [blank_row (JStr ''a1'') JNull ''2024''],
       snd (scrape_page ex_rep all_written (one_page_api mixed_records) (new_scraper {}) 1)))"
proof -
  let ?api = "one_page_api mixed_records"
  let ?sc = "new_scraper {}"
  have f: "first_page None (state ?sc) = Inr 1"
    by (simp add: first_page_def init_state)
  have n: "\<not> full_page (?api 1)"
    by (simp add: full_page_def listing_array_def one_page_api_def mixed_records_def)
  have l: "scrape_loop ex_rep all_written ?api (Seconds 0) None ?sc 1 0 =
      Some (None, snd (scrape_page ex_rep all_written ?api ?sc 1))"
    by (rule scrape_loop_stop) (simp_all add: cap_reached_def scrape_page_True_iff n)
  have m: "mixed_records \<noteq> []" by (simp add: mixed_records_def)
  have "new_listings_this_session (snd (scrape_page ex_rep all_written ?api ?sc 1)) =
      fst (record_listings ex_rep (seen_posting_ids ?sc) mixed_records
             (new_listings_this_session ?sc) 0)"
    using m by (rule one_page_first_session)
  also have "\<dots> = [(''a1'', JObj [(''postingId'', JStr ''a1'')])]"
    by (simp add: new_scraper_def fresh_scraper_def mixed_records_def Let_def)
  finally have s: "new_listings_this_session (snd (scrape_page ex_rep all_written ?api ?sc 1)) =
      [(''a1'', JObj [(''postingId'', JStr ''a1'')])]" .
  show ?thesis
    unfolding scrape_city_task_def Let_def
    by (simp add: init_new_scraper no_directory scrape_def f l s
        save_new_listings_to_city_csv_def flatten_id_only)
qed

lemma fetched_mixed:
  "fetched_ids ex_rep (one_page_api mixed_records) [1] = {''a1'', ''a2''}"
  by (simp add: fetched_ids_def page_records_def listing_array_def one_page_api_def
      mixed_records_def posting_key_def)

lemma task_null_publisher:
  "scrape_city_task ex_rep all_written ex_lower ''2024'' (one_page_api null_publisher_records)
       None Absent NoCookies ''itanhaem-sp'' None (Seconds 0) None =
     Some (Inl AttributeError)"
proof -
  have r: "null_publisher_records \<noteq> []" "list_all is_dict null_publisher_records"
    by (simp_all add: null_publisher_records_def)
  have s: "fst (record_listings ex_rep {} null_publisher_records [] 0) =
      [(''a1'', JObj [(''postingId'', JStr ''a1''), (''publisher'', JNull)])]"
    by (simp add: null_publisher_records_def Let_def)
  have fl: "flatten ex_lower ''2024'' (JObj [(''postingId'', JStr ''a1''), (''publisher'', JNull)]) =
      Inl AttributeError"
    by (simp add: flatten_eval)
  show ?thesis
    by (simp add: task_one_page [OF r sleep_0] no_directory s
        save_new_listings_to_city_csv_def fl)
qed

lemma fetched_null_publisher:
  "fetched_ids ex_rep (one_page_api null_publisher_records) [1] = {''a1''}"
  by (simp add: fetched_ids_def page_records_def listing_array_def one_page_api_def
      null_publisher_records_def posting_key_def)

lemma fetch_null_id: "fetch_quintoandar_data null_id_hits = Inr (Some [JObj [(''id'', JNull)]])"
  by (simp add: fetch_quintoandar_data_def null_id_hits_def)

lemma null_id_row: "writerows ex_rep [JObj [(''id'', JNull)]] = Inr [ex_row [] []]"
  by (simp add: csv_cells_dict fields_to_request_def csv_cell_def ex_row_def)

lemma null_id_first_run:
  "process_city ex_rep null_id_hits NoFile =
     Inr ([JObj [(''id'', JNull)]], CsvFile [fields_to_request, ex_row [] []])"
  by (simp add: process_city_def fetch_null_id null_id_row Let_def del: writerows.simps)

lemma read_one_row: "reader_ids fields_to_request [ex_row i c] = [Some i]"
  by (simp add: dict_reader_row_def fields_to_request_def ex_row_def)

lemma null_id_second_run:
  "process_city ex_rep null_id_hits (CsvFile [fields_to_request, ex_row [] []]) =
     Inr ([JObj [(''id'', JNull)]],
          CsvFile [fields_to_request, ex_row [] [], ex_row [] []])"
  by (simp add: process_city_def fetch_null_id null_id_row read_one_row Let_def
      del: writerows.simps reader_ids.simps)

text \<open>
  C1 as stated fails in four ways.  On site A, a page whose only record has the empty
  string as identifier gives fetched identifiers \<open>{[]}\<close> and an empty seen set, yet no
  file is written.  A page with an item that is not a record between the records
  \<open>a1\<close> and \<open>a2\<close> ends the run, which writes \<open>a1\<close> only.  A record \<open>a1\<close> whose
  \<open>publisher\<close> is null makes the worker raise, and nothing is written.  On site B, a
  record with a null \<open>id\<close> is written with an empty \<open>id\<close> cell, and the next run over
  the file so written appends it again.
\<close>

theorem fetched_ids_not_written_or_written_again:
  "scrape_city_task ex_rep all_written ex_lower ''2024'' (one_page_api blank_id_records) None
       Absent NoCookies ''itanhaem-sp'' None (Seconds 0) None =
     Some (Inr (None, run_one_page ex_rep blank_id_records {})) \<and>
   requested (run_one_page ex_rep blank_id_records {}) = [1, 2] \<and>
   fetched_ids ex_rep (one_page_api blank_id_records) [1, 2]
     - load_seen_ids_from_city_csvs None ''itanhaem-sp'' = {[]} \<and>
   written_posting_ids
     (scrape_city_task ex_rep all_written ex_lower ''2024'' (one_page_api mixed_records) None
        Absent NoCookies ''itanhaem-sp'' None (Seconds 0) None) = Some [JStr ''a1''] \<and>
   task_requested
     (scrape_city_task ex_rep all_written ex_lower ''2024'' (one_page_api mixed_records) None
        Absent NoCookies ''itanhaem-sp'' None (Seconds 0) None) = Some [1] \<and>
   fetched_ids ex_rep (one_page_api mixed_records) [1]
     - load_seen_ids_from_city_csvs None ''itanhaem-sp'' = {''a1'', ''a2''} \<and>
   scrape_city_task ex_rep all_written ex_lower ''2024'' (one_page_api null_publisher_records)
       None Absent NoCookies ''itanhaem-sp'' None (Seconds 0) None =
     Some (Inl AttributeError) \<and>
   fetched_ids ex_rep (one_page_api null_publisher_records) [1]
     - load_seen_ids_from_city_csvs None ''itanhaem-sp'' = {''a1''} \<and>
   process_city ex_rep null_id_hits NoFile =
     Inr ([JObj [(''id'', JNull)]], CsvFile [fields_to_request, ex_row [] []]) \<and>
   process_city ex_rep null_id_hits (CsvFile [fields_to_request, ex_row [] []]) =
     Inr ([JObj [(''id'', JNull)]],
          CsvFile [fields_to_request, ex_row [] [], ex_row [] []])"
  by (simp add: task_blank_id run_one_page_requested fetched_blank_id no_directory task_mixed
      fetched_mixed task_null_publisher fetched_null_publisher null_id_first_run
      null_id_second_run written_posting_ids_def task_requested_def scrape_page_requested
      new_scraper_def fresh_scraper_def blank_row_def)

text \<open>
  C9 as stated fails in its last part: for a page of records without identifier the
  \<open>postingId\<close> column of the file written is the null value, not the string
  \<open>''None''\<close>.
\<close>

theorem id_less_record_is_written_with_null_id:
  "written_posting_ids
     (scrape_city_task ex_rep all_written ex_lower ''2024'' (one_page_api id_less_records) None
        Absent NoCookies ''itanhaem-sp'' None (Seconds 0) None) = Some [JNull]"
proof -
  have r: "id_less_records \<noteq> []" "list_all is_dict id_less_records"
    by (simp_all add: id_less_records_def)
  have s: "fst (record_listings ex_rep {} id_less_records [] 0) =
      [(''None'', JObj [(''title'', JStr ''Casa'')])]"
    by (simp add: id_less_records_def Let_def)
  show ?thesis
    by (simp add: task_one_page [OF r sleep_0] no_directory s save_new_listings_to_city_csv_def
        flatten_title_only written_posting_ids_def blank_row_def)
qed

lemma records_only_two: "records_only (one_page_api two_records q)"
  by (simp add: records_only_def page_records_def listing_array_def one_page_api_def
      empty_api_def two_records_def)

lemma fetch_ex_hits:
  "fetch_quintoandar_data ex_hits =
     Inr (Some [JObj [(''id'', JStr ''q1''), (''coverImage'', JStr ''a.jpg'')],
                JObj [(''id'', JStr ''q2''), (''coverImage'', JStr ''b.jpg'')],
                JObj [(''id'', JStr ''q2''), (''coverImage'', JStr ''c.jpg'')]])"
  by (simp add: fetch_quintoandar_data_def ex_hits_def)

lemma ex_hits_row:
  "writerows ex_rep [JObj [(''id'', JStr ''q2''), (''coverImage'', JStr ''c.jpg'')]] =
     Inr [ex_row ''q2'' ''c.jpg'']"
  by (simp add: csv_cells_dict fields_to_request_def csv_cell_def ex_row_def)

lemma process_ex_hits:
  "process_city ex_rep ex_hits (CsvFile [fields_to_request, ex_row ''q1'' ''a.jpg'']) =
     Inr ([JObj [(''id'', JStr ''q2''), (''coverImage'', JStr ''c.jpg'')]],
          CsvFile [fields_to_request, ex_row ''q1'' ''a.jpg'', ex_row ''q2'' ''c.jpg''])"
  by (simp add: process_city_def fetch_ex_hits ex_hits_row read_one_row Let_def
      del: writerows.simps reader_ids.simps)

lemma ids_read_ex: "ids_read (CsvFile [fields_to_request, ex_row ''q1'' ''a.jpg'']) = {''q1''}"
  by (auto simp: ids_read_def read_one_row in_these_eq simp del: reader_ids.simps)

text \<open>
  A run of each site: one identifier already in a prior file, one new, one repeated.
\<close>

theorem new_ids_are_fetched_ids_not_seen_before_witness:
  "scrape_city_task ex_rep all_written ex_lower ''2024'' (one_page_api two_records) ex_directory
       Absent NoCookies ''itanhaem-sp'' None (Seconds 0) None =
     Some (Inr (Some [blank_row (JStr ''a2'') JNull ''2024''],
                run_one_page ex_rep two_records {''a1''})) \<and>
   requested (run_one_page ex_rep two_records {''a1''}) = [1, 2] \<and>
   records_only (one_page_api two_records 1) \<and> records_only (one_page_api two_records 2) \<and>
   set (map (row_id ex_rep) [blank_row (JStr ''a2'') JNull ''2024'']) =
     fetched_ids ex_rep (one_page_api two_records) [1, 2] - {[]}
       - load_seen_ids_from_city_csvs ex_directory ''itanhaem-sp'' \<and>
   process_city ex_rep ex_hits (CsvFile [fields_to_request, ex_row ''q1'' ''a.jpg'']) =
     Inr ([JObj [(''id'', JStr ''q2''), (''coverImage'', JStr ''c.jpg'')]],
          CsvFile [fields_to_request, ex_row ''q1'' ''a.jpg'', ex_row ''q2'' ''c.jpg'']) \<and>
   fetch_quintoandar_data ex_hits =
     Inr (Some [JObj [(''id'', JStr ''q1''), (''coverImage'', JStr ''a.jpg'')],
                JObj [(''id'', JStr ''q2''), (''coverImage'', JStr ''b.jpg'')],
                JObj [(''id'', JStr ''q2''), (''coverImage'', JStr ''c.jpg'')]]) \<and>
   set (listing_ids ex_rep [JObj [(''id'', JStr ''q2''), (''coverImage'', JStr ''c.jpg'')]]) =
     set (listing_ids ex_rep
            [JObj [(''id'', JStr ''q1''), (''coverImage'', JStr ''a.jpg'')],
             JObj [(''id'', JStr ''q2''), (''coverImage'', JStr ''b.jpg'')],
             JObj [(''id'', JStr ''q2''), (''coverImage'', JStr ''c.jpg'')]])
       - ids_read (CsvFile [fields_to_request, ex_row ''q1'' ''a.jpg''])"
proof -
  have r: "two_records \<noteq> []" "list_all is_dict two_records"
    by (simp_all add: two_records_def)
  have s: "fst (record_listings ex_rep {''a1''} two_records [] 0) =
      [(''a2'', JObj [(''postingId'', JStr ''a2'')])]"
    by (simp add: two_records_def Let_def)
  have a: "scrape_city_task ex_rep all_written ex_lower ''2024'' (one_page_api two_records)
       ex_directory Absent NoCookies ''itanhaem-sp'' None (Seconds 0) None =
     Some (Inr (Some [blank_row (JStr ''a2'') JNull ''2024''],
                run_one_page ex_rep two_records {''a1''}))"
    by (simp add: task_one_page [OF r sleep_0] ex_directory_seen s
        save_new_listings_to_city_csv_def flatten_id_only)
  have q: "requested (run_one_page ex_rep two_records {''a1''}) = [1, 2]"
    by (rule run_one_page_requested)
  have o: "\<forall>q \<in> set (requested (run_one_page ex_rep two_records {''a1''})).
      records_only (one_page_api two_records q)"
    by (simp add: records_only_two)
  from new_ids_are_fetched_ids_not_seen_before
    [where rep = ex_rep and store = all_written and lower = ex_lower and ts = "''2024''"
       and api = "one_page_api two_records" and dir = ex_directory and sf = Absent
       and cf = NoCookies and slug = "''itanhaem-sp''" and start_page = None
       and delay = "Seconds 0" and max_pages = None
       and written = "Some [blank_row (JStr ''a2'') JNull ''2024'']"
       and sc' = "run_one_page ex_rep two_records {''a1''}"
       and r = ex_hits and f = "CsvFile [fields_to_request, ex_row ''q1'' ''a.jpg'']"
       and added = "[JObj [(''id'', JStr ''q2''), (''coverImage'', JStr ''c.jpg'')]]"
       and f' = "CsvFile [fields_to_request, ex_row ''q1'' ''a.jpg'', ex_row ''q2'' ''c.jpg'']"
       and listings = "[JObj [(''id'', JStr ''q1''), (''coverImage'', JStr ''a.jpg'')],
                JObj [(''id'', JStr ''q2''), (''coverImage'', JStr ''b.jpg'')],
                JObj [(''id'', JStr ''q2''), (''coverImage'', JStr ''c.jpg'')]]"]
    a o process_ex_hits fetch_ex_hits
  have "set (map (row_id ex_rep) [blank_row (JStr ''a2'') JNull ''2024'']) =
     fetched_ids ex_rep (one_page_api two_records) [1, 2] - {[]}
       - load_seen_ids_from_city_csvs ex_directory ''itanhaem-sp''"
    and "set (listing_ids ex_rep [JObj [(''id'', JStr ''q2''), (''coverImage'', JStr ''c.jpg'')]]) =
     set (listing_ids ex_rep
            [JObj [(''id'', JStr ''q1''), (''coverImage'', JStr ''a.jpg'')],
             JObj [(''id'', JStr ''q2''), (''coverImage'', JStr ''b.jpg'')],
             JObj [(''id'', JStr ''q2''), (''coverImage'', JStr ''c.jpg'')]])
       - ids_read (CsvFile [fields_to_request, ex_row ''q1'' ''a.jpg''])"
    by (simp_all add: q records_only_two)
  with a q process_ex_hits fetch_ex_hits show ?thesis
    by (simp only: records_only_two simp_thms)
qed

lemma full_paged: "1 \<le> q \<Longrightarrow> q \<le> int N \<Longrightarrow> full_page (paged_api N q)"
  by (simp add: full_page_def listing_array_def paged_api_def)

lemma empty_paged: "int N < q \<Longrightarrow> empty_page (paged_api N q)"
  by (simp add: empty_page_def listing_array_def paged_api_def empty_api_def)

text \<open>
  Two full pages and an empty one, default configuration.
\<close>

theorem full_pages_then_empty_page_persist_last_full_page_witness:
  "(1::nat) \<le> 2 \<and> first_page None (state (new_scraper {})) = Inr 1 \<and>
   full_page (paged_api 2 1) \<and> full_page (paged_api 2 2) \<and> empty_page (paged_api 2 3) \<and>
   cap_allows None 2 \<and>
   state (new_scraper {}) = JObj [(''last_page'', JInt 0)] \<and>
   save_succeeds all_written (JObj [(''last_page'', JInt 0)]) 1 \<and>
   save_succeeds all_written (JObj [(''last_page'', JInt 0)]) 2 \<and>
   time_sleep (Seconds 0) = Inr () \<and>
   (\<exists>sc'. scrape ex_rep all_written (paged_api 2) (new_scraper {}) None (Seconds 0) None =
        Some (Inr (new_listings_this_session sc', sc')) \<and>
     (\<exists>kvs'. state_file_contents sc' = Stored (JObj kvs') \<and>
        map_of kvs' ''last_page'' = Some (JInt 2)) \<and>
     requested sc' = [1, 2, 3])"
proof -
  have n: "(1::nat) \<le> 2" by simp
  have f: "first_page None (state (new_scraper {})) = Inr 1"
    by (simp add: first_page_def init_state)
  have p: "\<forall>i<2. full_page (paged_api 2 (1 + int i))"
    by (simp add: full_paged)
  have e: "empty_page (paged_api 2 (1 + int 2))"
    by (simp add: empty_paged)
  have c: "cap_allows None 2" by (simp add: cap_allows_def)
  have w: "\<forall>i<2. save_succeeds all_written (JObj [(''last_page'', JInt 0)]) (1 + int i)"
    by (simp add: all_written_succeeds)
  have g: "pages_from 1 3 = [1, 2, 3]"
    by (simp add: pages_from_def eval_nat_numeral)
  from full_pages_then_empty_page_persist_last_full_page
         [OF n f p e c init_state w sleep_0, of ex_rep]
  have "\<exists>sc'. scrape ex_rep all_written (paged_api 2) (new_scraper {}) None (Seconds 0) None =
        Some (Inr (new_listings_this_session sc', sc')) \<and>
     (\<exists>kvs'. state_file_contents sc' = Stored (JObj kvs') \<and>
        map_of kvs' ''last_page'' = Some (JInt 2)) \<and>
     requested sc' = [1, 2, 3]"
    by (simp add: g new_scraper_def fresh_scraper_def)
  with f c show ?thesis
    by (simp add: full_paged empty_paged init_state all_written_succeeds sleep_0)
qed

text \<open>How a run that ends at its first page returns.\<close>

lemma scrape_stops_at_first_page:
  assumes "first_page start_page (state sc) = Inr p" and "\<not> cap_reached max_pages 0"
    and "\<not> fst (scrape_page rep store api sc p)"
  shows "scrape rep store api sc start_page delay max_pages =
     Some (Inr (new_listings_this_session (snd (scrape_page rep store api sc p)),
                snd (scrape_page rep store api sc p)))"
  using assms by (simp add: scrape_def scrape_loop_stop)

lemma scrape_sleep_raises:
  assumes "first_page start_page (state sc) = Inr p" and "\<not> cap_reached max_pages 0"
    and "fst (scrape_page rep store api sc p)" and "time_sleep delay = Inl e"
  shows "scrape rep store api sc start_page delay max_pages =
     Some (Inr (new_listings_this_session (snd (scrape_page rep store api sc p)),
                snd (scrape_page rep store api sc p)))"
  using assms by (simp add: scrape_def scrape_loop_sleep_raises)

lemma scrape_capped_after_first_page:
  assumes "first_page start_page (state sc) = Inr p" and "\<not> cap_reached max_pages 0"
    and "fst (scrape_page rep store api sc p)" and "time_sleep delay = Inr ()"
    and "cap_reached max_pages (0 + 1)"
  shows "scrape rep store api sc start_page delay max_pages =
     Some (Inr (new_listings_this_session (snd (scrape_page rep store api sc p)),
                snd (scrape_page rep store api sc p)))"
proof -
  have "scrape_loop rep store api delay max_pages sc p 0 =
      scrape_loop rep store api delay max_pages (snd (scrape_page rep store api sc p))
        (p + 1) (0 + 1)"
    using assms(2,3,4) by (rule scrape_loop_next)
  also have "\<dots> = Some (None, snd (scrape_page rep store api sc p))"
    using assms(5) by (rule scrape_loop_cap)
  finally show ?thesis
    using assms(1) by (simp add: scrape_def)
qed

lemma first_page_saved:
  assumes "full_page (api 1)" and "save_succeeds store (JObj [(''last_page'', JInt 0)]) 1"
  shows "fst (scrape_page rep store api (new_scraper S) 1)"
    and "state_file_contents (snd (scrape_page rep store api (new_scraper S) 1)) =
      Stored (JObj [(''last_page'', JInt 1)])"
proof -
  show t: "fst (scrape_page rep store api (new_scraper S) 1)"
    using assms by (simp add: scrape_page_True_iff init_state)
  from scrape_page_True_saved [OF t]
  show "state_file_contents (snd (scrape_page rep store api (new_scraper S) 1)) =
      Stored (JObj [(''last_page'', JInt 1)])"
    by (simp add: init_state)
qed

lemma requested_first: "requested (snd (scrape_page rep store api (new_scraper S) p)) = [p]"
  by (simp add: scrape_page_requested new_scraper_def fresh_scraper_def)

text \<open>
  C2 as stated fails in five ways, each with two full pages and then an empty one (a
  page holding a number in the fourth).  Under \<^verbatim>\<open>--max-pages 1\<close> the driver requests
  page 1 only and persists \<open>last_page = 1\<close>.  With the delay \<open>-1\<close>,
  \<^verbatim>\<open>time.sleep\<close> raises after the first page, which ends the run there.  With a state
  file that holds a JSON list and \<^verbatim>\<open>--start 1\<close>, \<^verbatim>\<open>_save_state\<close> raises on the first
  page: the run ends and the file is unchanged.  A non-empty page whose item is not a
  record ends the run with nothing persisted.  On a full disk the first rewrite of the
  state file fails: the run ends and the file is left truncated.
\<close>

theorem run_ends_before_the_last_full_page:
  "full_page (paged_api 2 1) \<and> full_page (paged_api 2 2) \<and> empty_page (paged_api 2 3) \<and>
   pages_requested
     (scrape ex_rep all_written (paged_api 2) (new_scraper {}) None (Seconds 0) (Some 1)) =
     Some [1] \<and>
   final_state_file
     (scrape ex_rep all_written (paged_api 2) (new_scraper {}) None (Seconds 0) (Some 1)) =
     Some (Stored (JObj [(''last_page'', JInt 1)])) \<and>
   pages_requested
     (scrape ex_rep all_written (paged_api 2) (new_scraper {}) None (Seconds (- 1)) None) =
     Some [1] \<and>
   final_state_file
     (scrape ex_rep all_written (paged_api 2) (new_scraper {}) None (Seconds (- 1)) None) =
     Some (Stored (JObj [(''last_page'', JInt 1)])) \<and>
   pages_requested
     (scrape ex_rep all_written (paged_api 2) (fresh_scraper {} (JList []) (Stored (JList [])))
        (Some 1) (Seconds 0) None) = Some [1] \<and>
   final_state_file
     (scrape ex_rep all_written (paged_api 2) (fresh_scraper {} (JList []) (Stored (JList [])))
        (Some 1) (Seconds 0) None) = Some (Stored (JList [])) \<and>
   nonempty_page (one_page_api [JInt 5] 1) \<and> empty_page (one_page_api [JInt 5] 2) \<and>
   pages_requested
     (scrape ex_rep all_written (one_page_api [JInt 5]) (new_scraper {}) None (Seconds 0) None) =
     Some [1] \<and>
   final_state_file
     (scrape ex_rep all_written (one_page_api [JInt 5]) (new_scraper {}) None (Seconds 0) None) =
     Some Absent \<and>
   pages_requested
     (scrape ex_rep disk_full (paged_api 2) (new_scraper {}) None (Seconds 0) None) =
     Some [1] \<and>
   final_state_file
     (scrape ex_rep disk_full (paged_api 2) (new_scraper {}) None (Seconds 0) None) =
     Some Malformed"
proof -
  let ?sc = "new_scraper {}"
  let ?sl = "fresh_scraper {} (JList []) (Stored (JList []))"
  have f: "first_page None (state ?sc) = Inr 1" "first_page (Some 1) (state ?sl) = Inr 1"
    by (simp_all add: first_page_def init_state)
  have nc: "\<not> cap_reached (Some 1) 0" "\<not> cap_reached None 0" "cap_reached (Some 1) (0 + 1)"
    by (simp_all add: cap_reached_def)
  have fp: "full_page (paged_api 2 1)" by (simp add: full_paged)
  have t: "fst (scrape_page ex_rep all_written (paged_api 2) ?sc 1)"
    "state_file_contents (snd (scrape_page ex_rep all_written (paged_api 2) ?sc 1)) =
      Stored (JObj [(''last_page'', JInt 1)])"
    using first_page_saved [where api = "paged_api 2" and store = all_written and rep = ex_rep
        and S = "{}"] fp all_written_succeeds
    by simp_all
  have sl: "time_sleep (Seconds (- 1)) = Inl ValueError"
    by (simp add: time_sleep_def)
  have 1: "scrape ex_rep all_written (paged_api 2) ?sc None (Seconds 0) (Some 1) =
      Some (Inr (new_listings_this_session (snd (scrape_page ex_rep all_written (paged_api 2) ?sc 1)),
                 snd (scrape_page ex_rep all_written (paged_api 2) ?sc 1)))"
    using f(1) nc(1) t(1) sleep_0 nc(3) by (rule scrape_capped_after_first_page)
  have 2: "scrape ex_rep all_written (paged_api 2) ?sc None (Seconds (- 1)) None =
      Some (Inr (new_listings_this_session (snd (scrape_page ex_rep all_written (paged_api 2) ?sc 1)),
                 snd (scrape_page ex_rep all_written (paged_api 2) ?sc 1)))"
    using f(1) nc(2) t(1) sl by (rule scrape_sleep_raises)
  have st3: "state ?sl = JList []" "state_file_contents ?sl = Stored (JList [])"
    by (simp_all add: fresh_scraper_def)
  have n3: "\<not> save_succeeds all_written (JList []) 1" "\<not> dump_raises all_written (JList []) 1"
    by (simp_all add: save_succeeds_def dump_raises_def)
  have 3: "scrape ex_rep all_written (paged_api 2) ?sl (Some 1) (Seconds 0) None =
      Some (Inr (new_listings_this_session (snd (scrape_page ex_rep all_written (paged_api 2) ?sl 1)),
                 snd (scrape_page ex_rep all_written (paged_api 2) ?sl 1)))"
    using f(2) nc(2) by (rule scrape_stops_at_first_page) (simp add: scrape_page_True_iff st3 n3)
  have s3: "state_file_contents (snd (scrape_page ex_rep all_written (paged_api 2) ?sl 1)) =
      Stored (JList [])"
    by (simp add: scrape_page_file st3 n3)
  have r3: "requested (snd (scrape_page ex_rep all_written (paged_api 2) ?sl 1)) = [1]"
    by (simp add: scrape_page_requested fresh_scraper_def)
  have n4: "\<not> full_page (one_page_api [JInt 5] 1)"
    by (simp add: full_page_def listing_array_def one_page_api_def)
  have 4: "scrape ex_rep all_written (one_page_api [JInt 5]) ?sc None (Seconds 0) None =
      Some (Inr (new_listings_this_session
                   (snd (scrape_page ex_rep all_written (one_page_api [JInt 5]) ?sc 1)),
                 snd (scrape_page ex_rep all_written (one_page_api [JInt 5]) ?sc 1)))"
    using f(1) nc(2) by (rule scrape_stops_at_first_page) (simp add: scrape_page_True_iff n4)
  have s4: "state_file_contents (snd (scrape_page ex_rep all_written (one_page_api [JInt 5]) ?sc 1)) =
      Absent"
    by (simp add: scrape_page_file n4) (simp add: new_scraper_def fresh_scraper_def)
  have n5: "\<not> save_succeeds disk_full (JObj [(''last_page'', JInt 0)]) 1"
    "dump_raises disk_full (JObj [(''last_page'', JInt 0)]) 1"
    by (simp_all add: save_succeeds_def dump_raises_def disk_full_def)
  have 5: "scrape ex_rep disk_full (paged_api 2) ?sc None (Seconds 0) None =
      Some (Inr (new_listings_this_session (snd (scrape_page ex_rep disk_full (paged_api 2) ?sc 1)),
                 snd (scrape_page ex_rep disk_full (paged_api 2) ?sc 1)))"
    using f(1) nc(2) by (rule scrape_stops_at_first_page) (simp add: scrape_page_True_iff init_state n5)
  have s5: "state_file_contents (snd (scrape_page ex_rep disk_full (paged_api 2) ?sc 1)) =
      Malformed"
    by (simp add: scrape_page_file init_state n5 fp)
  have e4: "nonempty_page (one_page_api [JInt 5] 1)" "empty_page (one_page_api [JInt 5] 2)"
    by (simp_all add: nonempty_page_def empty_page_def listing_array_def one_page_api_def
        empty_api_def)
  show ?thesis
    unfolding 1 2 3 4 5
    by (simp add: pages_requested_def final_state_file_def requested_first t(2) s3 r3 s4 s5 e4
        full_paged empty_paged)
qed

text \<open>
  A negative delay: \<^verbatim>\<open>time.sleep\<close> raises after the first page, and \<^verbatim>\<open>scrape\<close> still
  returns both listings.
\<close>

theorem scrape_raises_only_before_the_loop_witness:
  "first_page None (state (new_scraper {})) = Inr 1 \<and>
   scrape_loop ex_rep all_written (one_page_api two_records) (Seconds (- 1)) None
       (new_scraper {}) 1 0 =
     Some (Some ValueError, interrupted_run) \<and>
   scrape ex_rep all_written (one_page_api two_records) (new_scraper {}) None (Seconds (- 1))
       None =
     Some (Inr (new_listings_this_session interrupted_run, interrupted_run)) \<and>
   new_listings_this_session interrupted_run =
     [(''a1'', JObj [(''postingId'', JStr ''a1'')]), (''a2'', JObj [(''postingId'', JStr ''a2'')])]"
proof -
  let ?sc = "new_scraper {}"
  have f: "first_page None (state ?sc) = Inr 1"
    by (simp add: first_page_def init_state)
  have r: "two_records \<noteq> []" "list_all is_dict two_records"
    by (simp_all add: two_records_def)
  have t: "fst (scrape_page ex_rep all_written (one_page_api two_records) ?sc 1)"
    using full_one_page [OF r] init_state all_written_succeeds by (rule scrape_page_full)
  have sl: "time_sleep (Seconds (- 1)) = Inl ValueError"
    by (simp add: time_sleep_def)
  have l: "scrape_loop ex_rep all_written (one_page_api two_records) (Seconds (- 1)) None ?sc 1 0 =
     Some (Some ValueError, interrupted_run)"
    unfolding interrupted_run_def
    by (rule scrape_loop_sleep_raises [OF _ t sl]) (simp add: cap_reached_def)
  have "new_listings_this_session interrupted_run =
      fst (record_listings ex_rep (seen_posting_ids ?sc) two_records
             (new_listings_this_session ?sc) 0)"
    unfolding interrupted_run_def using r(1) by (rule one_page_first_session)
  also have "\<dots> =
     [(''a1'', JObj [(''postingId'', JStr ''a1'')]), (''a2'', JObj [(''postingId'', JStr ''a2'')])]"
    by (simp add: two_records_def new_scraper_def fresh_scraper_def Let_def)
  finally have s: "new_listings_this_session interrupted_run =
     [(''a1'', JObj [(''postingId'', JStr ''a1'')]), (''a2'', JObj [(''postingId'', JStr ''a2'')])]" .
  from scrape_raises_only_before_the_loop
    [where rep = ex_rep and store = all_written and api = "one_page_api two_records"
       and sc = "?sc" and start_page = None and delay = "Seconds (- 1)" and max_pages = None
       and p = 1 and in_flight = "Some ValueError" and sc' = interrupted_run] f l s
  show ?thesis by simp
qed

text \<open>
  A listing with identifier, price and title.
\<close>

theorem missing_price_key_only_blanks_price_witness:
  "''priceOperationTypes'' \<notin> fst ` set ([(''postingId'', JInt 7)] @ [(''title'', JStr ''Casa'')]) \<and>
   flatten ex_lower ''2024'' priced_listing =
     Inr ((blank_row (JInt 7) (JStr ''Casa'') ''2024'')
            \<lparr>price := JInt 1500, currency := JStr ''BRL''\<rparr>) \<and>
   flatten ex_lower ''2024'' (JObj ([(''postingId'', JInt 7)] @ [(''title'', JStr ''Casa'')])) =
     Inr (blank_row (JInt 7) (JStr ''Casa'') ''2024'')"
proof -
  have h: "''priceOperationTypes'' \<notin>
      fst ` set ([(''postingId'', JInt 7)] @ [(''title'', JStr ''Casa'')])"
    by simp
  have w: "flatten ex_lower ''2024'' priced_listing =
     Inr ((blank_row (JInt 7) (JStr ''Casa'') ''2024'')
            \<lparr>price := JInt 1500, currency := JStr ''BRL''\<rparr>)"
    by (simp add: priced_listing_def flatten_eval blank_row_def)
  from missing_price_key_only_blanks_price [OF h, of ex_lower "''2024''" _
      "JList [JObj [(''prices'', JList [JObj [(''amount'', JInt 1500),
                                               (''currency'', JStr ''BRL'')]])]]"
      "(blank_row (JInt 7) (JStr ''Casa'') ''2024'')
            \<lparr>price := JInt 1500, currency := JStr ''BRL''\<rparr>"]
    w [unfolded priced_listing_def]
  have "flatten ex_lower ''2024'' (JObj ([(''postingId'', JInt 7)] @ [(''title'', JStr ''Casa'')])) =
     Inr (blank_row (JInt 7) (JStr ''Casa'') ''2024'')"
    by (simp add: blank_row_def)
  with h w show ?thesis by simp
qed

text \<open>
  Two records without identifier on one page: the first is kept.
\<close>

theorem id_less_record_is_kept_once_under_None_witness:
  "id_less (JObj [(''title'', JStr ''Casa'')]) \<and>
   scrape ex_rep all_written (one_page_api id_less_records) (new_scraper {}) None (Seconds 0)
       None =
     Some (Inr (new_listings_this_session (run_one_page ex_rep id_less_records {}),
                run_one_page ex_rep id_less_records {})) \<and>
   new_listings_this_session (run_one_page ex_rep id_less_records {}) =
     [(''None'', JObj [(''title'', JStr ''Casa'')])] \<and>
   length (filter id_less
      (map snd (new_listings_this_session (run_one_page ex_rep id_less_records {})))) \<le> 1 \<and>
   flatten ex_lower ''2024'' (JObj [(''title'', JStr ''Casa'')]) =
     Inr (blank_row JNull (JStr ''Casa'') ''2024'') \<and>
   postingId (blank_row JNull (JStr ''Casa'') ''2024'') = JNull"
proof -
  have i: "id_less (JObj [(''title'', JStr ''Casa'')])"
    by (simp add: id_less_def)
  have r: "id_less_records \<noteq> []" "list_all is_dict id_less_records"
    by (simp_all add: id_less_records_def)
  note s = scrape_one_page [OF r sleep_0, of ex_rep "{}"]
  have "new_listings_this_session (run_one_page ex_rep id_less_records {}) =
      fst (record_listings ex_rep {} id_less_records [] 0)"
    by (rule run_one_page_session [OF r(1)])
  also have "\<dots> = [(''None'', JObj [(''title'', JStr ''Casa'')])]"
    by (simp add: id_less_records_def Let_def)
  finally have n: "new_listings_this_session (run_one_page ex_rep id_less_records {}) =
     [(''None'', JObj [(''title'', JStr ''Casa'')])]" .
  note fl = flatten_title_only [of ex_lower "''2024''" "''Casa''"]
  from id_less_record_is_kept_once_under_None
    [where item = "JObj [(''title'', JStr ''Casa'')]" and rep = ex_rep and store = all_written
       and api = "one_page_api id_less_records" and S = "{}"
       and st = "JObj [(''last_page'', JInt 0)]" and f = Absent and start_page = None
       and delay = "Seconds 0" and max_pages = None
       and sess' = "new_listings_this_session (run_one_page ex_rep id_less_records {})"
       and sc' = "run_one_page ex_rep id_less_records {}" and lower = ex_lower
       and ts = "''2024''" and row = "blank_row JNull (JStr ''Casa'') ''2024''"]
    i s [unfolded new_scraper_def] fl
  have "length (filter id_less
      (map snd (new_listings_this_session (run_one_page ex_rep id_less_records {})))) \<le> 1 \<and>
    postingId (blank_row JNull (JStr ''Casa'') ''2024'') = JNull"
    by blast
  with i s n fl show ?thesis by simp
qed

end
